theory Spec2Isabelle
  imports Main
begin

section \<open>Conventions\<close>

text \<open>
  This theory embeds the configuration mutation and recovery core of GitSwitch:
  the record store (\<^verbatim>\<open>secure-store.service.ts\<close>), the profile service
  (\<^verbatim>\<open>profile.service.ts\<close>), the backup service, the audit service, the checksum
  utilities (\<^verbatim>\<open>utils/crypto.ts\<close>), the remote URL parser and the config
  setters of \<^verbatim>\<open>git.service.ts\<close>, and the unbind handler of
  \<^verbatim>\<open>ipc/repos.ipc.ts\<close>.

  A JavaScript array is a list, \<^verbatim>\<open>undefined\<close> in an optional field is
  \<open>None\<close>, and a mutable module-level store is a value that every operation takes
  and returns. A string is the list of the bytes of its UTF-8 encoding (so a
  string has no unpaired surrogate). A field called \<^verbatim>\<open>id\<close>, \<^verbatim>\<open>type\<close> or a name shared by two
  interfaces carries the initial of its interface as a prefix (\<open>p_id\<close>, \<open>b_id\<close>, ...).
  Values drawn from the environment (\<^verbatim>\<open>uuidv4()\<close>, \<^verbatim>\<open>new Date()\<close>, the key
  generator) are explicit arguments.
\<close>

section \<open>Strings\<close>

text \<open>\<^verbatim>\<open>String.prototype.startsWith\<close> and \<^verbatim>\<open>String.prototype.includes\<close>.\<close>

fun startsWith :: "string \<Rightarrow> string \<Rightarrow> bool" where
  "startsWith s [] = True"
| "startsWith [] (c # cs) = False"
| "startsWith (d # ds) (c # cs) = (d = c \<and> startsWith ds cs)"

fun includesStr :: "string \<Rightarrow> string \<Rightarrow> bool" where
  "includesStr [] sub = (sub = [])"
| "includesStr (c # cs) sub = (startsWith (c # cs) sub \<or> includesStr cs sub)"

text \<open>
  \<^verbatim>\<open>String.prototype.toLowerCase\<close>. On a string of ASCII characters only, the
  letters A to Z are lower-cased and every other character is kept. On any
  other string the result follows the case mappings of the Unicode Character
  Database (U+212A KELVIN SIGN becomes \<^verbatim>\<open>k\<close>, U+0130 becomes \<^verbatim>\<open>i\<close> and
  U+0307); those tables belong to the JavaScript engine, so what the engine
  returns on such a string is the argument \<open>unicodeLower\<close>.
\<close>

definition lowerChar :: "char \<Rightarrow> char" where
  "lowerChar c =
     (case map_of (zip ''ABCDEFGHIJKLMNOPQRSTUVWXYZ'' ''abcdefghijklmnopqrstuvwxyz'') c of
        Some l \<Rightarrow> l
      | None \<Rightarrow> c)"

definition isAscii :: "char \<Rightarrow> bool" where
  "isAscii c = ((of_char c :: nat) < 128)"

definition toLowerCase :: "(string \<Rightarrow> string) \<Rightarrow> string \<Rightarrow> string" where
  "toLowerCase unicodeLower s = (if list_all isAscii s then map lowerChar s else unicodeLower s)"

text \<open>\<^verbatim>\<open>Array.prototype.findIndex\<close>: the first position that satisfies the test.\<close>

fun findIndex :: "('a \<Rightarrow> bool) \<Rightarrow> 'a list \<Rightarrow> nat option" where
  "findIndex P [] = None"
| "findIndex P (x # xs) =
     (if P x then Some 0 else map_option Suc (findIndex P xs))"

text \<open>
  Truthiness of an optional string or boolean (\<^verbatim>\<open>undefined\<close>, the empty string
  and \<^verbatim>\<open>false\<close> are falsy), and \<^verbatim>\<open>x ?? d\<close>.
\<close>

definition truthyStr :: "string option \<Rightarrow> bool" where
  "truthyStr s = (case s of None \<Rightarrow> False | Some v \<Rightarrow> v \<noteq> [])"

definition truthyBool :: "bool option \<Rightarrow> bool" where
  "truthyBool b = (case b of None \<Rightarrow> False | Some v \<Rightarrow> v)"

definition orElse :: "'a option \<Rightarrow> 'a \<Rightarrow> 'a" where
  "orElse x d = (case x of None \<Rightarrow> d | Some v \<Rightarrow> v)"

text \<open>\<^verbatim>\<open>Array.prototype.join\<close> on strings and \<^verbatim>\<open>String.prototype.split\<close> at one character.\<close>

fun joinWith :: "string \<Rightarrow> string list \<Rightarrow> string" where
  "joinWith sep [] = []"
| "joinWith sep [x] = x"
| "joinWith sep (x # y # ys) = x @ sep @ joinWith sep (y # ys)"

fun splitOn :: "char \<Rightarrow> string \<Rightarrow> string list" where
  "splitOn c [] = [[]]"
| "splitOn c (x # xs) =
     (if x = c then [] # splitOn c xs
      else (case splitOn c xs of [] \<Rightarrow> [[x]] | h # t \<Rightarrow> (x # h) # t))"

text \<open>
  The default order of \<^verbatim>\<open>Array.prototype.sort\<close> on strings (character by
  character, a proper prefix first), as a stable insertion sort.
\<close>

fun strLess :: "string \<Rightarrow> string \<Rightarrow> bool" where
  "strLess [] [] = False"
| "strLess [] (y # ys) = True"
| "strLess (x # xs) [] = False"
| "strLess (x # xs) (y # ys) =
     ((of_char x :: nat) < of_char y \<or> (x = y \<and> strLess xs ys))"

fun insertStr :: "string \<Rightarrow> string list \<Rightarrow> string list" where
  "insertStr x [] = [x]"
| "insertStr x (y # ys) = (if strLess y x then y # insertStr x ys else x # y # ys)"

definition sortStrings :: "string list \<Rightarrow> string list" where
  "sortStrings xs = foldr insertStr xs []"

section \<open>Paths (\<^verbatim>\<open>path.posix\<close>)\<close>

text \<open>
  \<^verbatim>\<open>path.join\<close> and \<^verbatim>\<open>path.basename\<close> in their POSIX form: the non-empty
  arguments are joined by a slash and the result is normalised (empty and
  \<^verbatim>\<open>.\<close> segments dropped, \<^verbatim>\<open>..\<close> resolved against the segment before it).
\<close>

fun normalizeSegments :: "bool \<Rightarrow> string list \<Rightarrow> string list \<Rightarrow> string list" where
  "normalizeSegments allowAboveRoot acc [] = rev acc"
| "normalizeSegments allowAboveRoot acc (s # ss) =
     (if s = [] \<or> s = ''.'' then normalizeSegments allowAboveRoot acc ss
      else if s = ''..'' then
        (case acc of
           [] \<Rightarrow> normalizeSegments allowAboveRoot (if allowAboveRoot then [''..''] else []) ss
         | t # ts \<Rightarrow>
             (if t = ''..''
              then normalizeSegments allowAboveRoot (if allowAboveRoot then ''..'' # acc else acc) ss
              else normalizeSegments allowAboveRoot ts ss))
      else normalizeSegments allowAboveRoot (s # acc) ss)"

definition pathNormalize :: "string \<Rightarrow> string" where
  "pathNormalize p =
     (if p = [] then ''.''
      else
        (let isAbsolute = (hd p = CHR ''/'');
             trailingSeparator = (last p = CHR ''/'');
             body = joinWith ''/'' (normalizeSegments (\<not> isAbsolute) [] (splitOn CHR ''/'' p))
         in if body = [] then (if isAbsolute then ''/'' else if trailingSeparator then ''./'' else ''.'')
            else (if isAbsolute then ''/'' else []) @ body @
                 (if trailingSeparator then ''/'' else [])))"

definition pathJoin :: "string list \<Rightarrow> string" where
  "pathJoin args =
     (let parts = filter (\<lambda>a. a \<noteq> []) args
      in if parts = [] then ''.'' else pathNormalize (joinWith ''/'' parts))"

definition basename :: "string \<Rightarrow> string" where
  "basename p = rev (takeWhile (\<lambda>c. c \<noteq> CHR ''/'') (dropWhile (\<lambda>c. c = CHR ''/'') (rev p)))"

section \<open>Text files\<close>

text \<open>
  A file holds bytes; a JavaScript string is represented by the bytes of its
  UTF-8 encoding. \<^verbatim>\<open>fs.readFile(path, 'utf-8')\<close> decodes the bytes and replaces
  every ill-formed subsequence by U+FFFD, whose encoding is \<^verbatim>\<open>EF BF BD\<close>;
  \<^verbatim>\<open>fs.writeFile(path, content, 'utf-8')\<close> writes the encoding back. So reading a
  file as text is \<open>decodeUtf8\<close> below, and writing a text is the identity on the
  representation. The decoder is the one of the Encoding Standard: \<open>needed\<close>
  counts the continuation bytes still expected, \<open>lo\<close> and \<open>hi\<close> bound the next
  one, \<open>pending\<close> holds the bytes of the sequence read so far; a byte that
  cannot continue a sequence ends it with a replacement and is read again.
\<close>

definition replacement :: string where
  "replacement = [CHR 0xEF, CHR 0xBF, CHR 0xBD]"

function decodeFrom :: "nat \<Rightarrow> nat \<Rightarrow> nat \<Rightarrow> string \<Rightarrow> string \<Rightarrow> string" where
  "decodeFrom needed lo hi pending [] = (if needed \<noteq> 0 then replacement else [])"
| "decodeFrom needed lo hi pending (b # bs) =
     (let n = (of_char b :: nat)
      in if needed = 0 then
           (if n \<le> 0x7F then b # decodeFrom 0 0x80 0xBF [] bs
            else if 0xC2 \<le> n \<and> n \<le> 0xDF then decodeFrom 1 0x80 0xBF [b] bs
            else if 0xE0 \<le> n \<and> n \<le> 0xEF then
              decodeFrom 2 (if n = 0xE0 then 0xA0 else 0x80) (if n = 0xED then 0x9F else 0xBF) [b] bs
            else if 0xF0 \<le> n \<and> n \<le> 0xF4 then
              decodeFrom 3 (if n = 0xF0 then 0x90 else 0x80) (if n = 0xF4 then 0x8F else 0xBF) [b] bs
            else replacement @ decodeFrom 0 0x80 0xBF [] bs)
         else if \<not> (lo \<le> n \<and> n \<le> hi) then replacement @ decodeFrom 0 0x80 0xBF [] (b # bs)
         else if needed = 1 then pending @ [b] @ decodeFrom 0 0x80 0xBF [] bs
         else decodeFrom (needed - 1) 0x80 0xBF (pending @ [b]) bs)"
  by pat_completeness auto
termination
  by (relation "measure (\<lambda>(needed, lo, hi, pending, bs). 2 * length bs + (if needed = 0 then 0 else 1))")
     auto

definition decodeUtf8 :: "string \<Rightarrow> string" where
  "decodeUtf8 bytes = decodeFrom 0 0x80 0xBF [] bytes"

section \<open>JSON values and \<^verbatim>\<open>JSON.stringify\<close>\<close>

text \<open>
  A value of type \<^verbatim>\<open>unknown\<close> as the audit log meets it. An object is the list
  of its own properties in enumeration order, with pairwise distinct keys; a
  number is an integer in the range JavaScript prints in plain decimal.
\<close>

datatype json =
    JUndefined
  | JNull
  | JBool bool
  | JNum int
  | JStr string
  | JArr "json list"
  | JObj "(string \<times> json) list"

definition hexDigit :: "nat \<Rightarrow> char" where
  "hexDigit n = ''0123456789abcdef'' ! n"

text \<open>\<^verbatim>\<open>QuoteJSONString\<close>: the two-character escapes, \<^verbatim>\<open>\u00XX\<close> for the other
  control characters, every other character as it is.\<close>

definition escapeChar :: "char \<Rightarrow> string" where
  "escapeChar c =
     (let n = (of_char c :: nat)
      in if n = 34 then [CHR 0x5C, CHR 0x22]
         else if n = 92 then [CHR 0x5C, CHR 0x5C]
         else if n = 8 then [CHR 0x5C, CHR ''b'']
         else if n = 9 then [CHR 0x5C, CHR ''t'']
         else if n = 10 then [CHR 0x5C, CHR ''n'']
         else if n = 12 then [CHR 0x5C, CHR ''f'']
         else if n = 13 then [CHR 0x5C, CHR ''r'']
         else if n < 32 then
           [CHR 0x5C, CHR ''u'', CHR ''0'', CHR ''0'', hexDigit (n div 16), hexDigit (n mod 16)]
         else [c])"

definition quoteJSONString :: "string \<Rightarrow> string" where
  "quoteJSONString s = [CHR 0x22] @ concat (map escapeChar s) @ [CHR 0x22]"

function showNat :: "nat \<Rightarrow> string" where
  "showNat n =
     (if n < 10 then [''0123456789'' ! n]
      else showNat (n div 10) @ [''0123456789'' ! (n mod 10)])"
  by pat_completeness auto
termination
  by (relation "measure (\<lambda>n. n)") auto

declare showNat.simps [simp del]

definition showInt :: "int \<Rightarrow> string" where
  "showInt i = (if i < 0 then CHR ''-'' # showNat (nat (- i)) else showNat (nat i))"

text \<open>
  \<^verbatim>\<open>SerializeJSONProperty\<close> with an optional property list \<open>K\<close> (the array
  passed as \<^verbatim>\<open>replacer\<close>). \<open>None\<close> is the result \<^verbatim>\<open>undefined\<close>. With a property
  list, \<^bold>\<open>every\<close> object, at every depth, is written with the listed keys only, in
  the order of the list; without one, with its own keys. An \<^verbatim>\<open>undefined\<close>
  member is left out of an object and written \<^verbatim>\<open>null\<close> in an array.
\<close>

fun serialize :: "string list option \<Rightarrow> json \<Rightarrow> string option" where
  "serialize K JUndefined = None"
| "serialize K JNull = Some ''null''"
| "serialize K (JBool b) = Some (if b then ''true'' else ''false'')"
| "serialize K (JNum n) = Some (showInt n)"
| "serialize K (JStr s) = Some (quoteJSONString s)"
| "serialize K (JArr xs) =
     Some (''['' @ joinWith '',''
             (map (\<lambda>x. case serialize K x of None \<Rightarrow> ''null'' | Some t \<Rightarrow> t) xs) @ '']'')"
| "serialize K (JObj es) =
     (let strs = map (\<lambda>e. (fst e, serialize K (snd e))) es;
          keys = (case K of None \<Rightarrow> map fst es | Some ks \<Rightarrow> ks)
      in Some (''{'' @ joinWith '',''
                 (List.map_filter
                    (\<lambda>k. case map_of strs k of
                            Some (Some t) \<Rightarrow> Some (quoteJSONString k @ '':'' @ t)
                          | _ \<Rightarrow> None) keys) @ ''}''))"

text \<open>The property list of a replacer array: its strings, each once, first occurrence kept.\<close>

definition propertyList :: "string list \<Rightarrow> string list" where
  "propertyList ks = rev (remdups (rev ks))"

definition JSON_stringify :: "json \<Rightarrow> string list option \<Rightarrow> string option" where
  "JSON_stringify v replacer = serialize (map_option propertyList replacer) v"

text \<open>
  \<^verbatim>\<open>JSON.stringify(value, null, space)\<close>: no replacer, and \<open>gap\<close> is the string of
  \<open>space\<close> blanks. \<open>indent\<close> is the indentation of the enclosing value. A
  non-empty object or array puts each member on a line of its own, indented by
  one more \<open>gap\<close>, and a blank follows the colon of a property; an empty one is
  written \<^verbatim>\<open>{}\<close> or \<^verbatim>\<open>[]\<close>.
\<close>

fun serializeIndented :: "string \<Rightarrow> string \<Rightarrow> json \<Rightarrow> string option" where
  "serializeIndented gap indent JUndefined = None"
| "serializeIndented gap indent JNull = Some ''null''"
| "serializeIndented gap indent (JBool b) = Some (if b then ''true'' else ''false'')"
| "serializeIndented gap indent (JNum n) = Some (showInt n)"
| "serializeIndented gap indent (JStr s) = Some (quoteJSONString s)"
| "serializeIndented gap indent (JArr xs) =
     (let stepback = indent;
          inner = indent @ gap;
          partial = map (\<lambda>x. case serializeIndented gap inner x of None \<Rightarrow> ''null'' | Some t \<Rightarrow> t) xs
      in Some (if partial = [] then ''[]''
               else if gap = [] then ''['' @ joinWith '','' partial @ '']''
               else ''['' @ [CHR 0x0A] @ inner @ joinWith ('','' @ [CHR 0x0A] @ inner) partial @
                    [CHR 0x0A] @ stepback @ '']''))"
| "serializeIndented gap indent (JObj es) =
     (let stepback = indent;
          inner = indent @ gap;
          strs = map (\<lambda>e. (fst e, serializeIndented gap inner (snd e))) es;
          partial = List.map_filter
                      (\<lambda>e. case snd e of
                              None \<Rightarrow> None
                            | Some t \<Rightarrow> Some (quoteJSONString (fst e) @ '':'' @
                                               (if gap = [] then [] else '' '') @ t)) strs
      in Some (if partial = [] then ''{}''
               else if gap = [] then ''{'' @ joinWith '','' partial @ ''}''
               else ''{'' @ [CHR 0x0A] @ inner @ joinWith ('','' @ [CHR 0x0A] @ inner) partial @
                    [CHR 0x0A] @ stepback @ ''}''))"

section \<open>\<^verbatim>\<open>utils/crypto.ts\<close>\<close>

text \<open>
  \<^verbatim>\<open>sha256(input)\<close> is the hexadecimal SHA-256 digest of the UTF-8 bytes of
  \<open>input\<close>. The digest function belongs to the platform and is an argument
  \<open>sha256\<close> of everything that hashes.

  \<^verbatim>\<open>generateChecksum(data)\<close> is
  \<^verbatim>\<open>sha256(JSON.stringify(data, Object.keys(data).sort()))\<close>. Stringifying an
  object always yields a string.
\<close>

definition generateChecksum :: "(string \<Rightarrow> string) \<Rightarrow> (string \<times> json) list \<Rightarrow> string" where
  "generateChecksum sha256 data =
     (case JSON_stringify (JObj data) (Some (sortStrings (map fst data))) of
        Some serialized \<Rightarrow> sha256 serialized
      | None \<Rightarrow> sha256 [])"

definition verifyChecksum :: "(string \<Rightarrow> string) \<Rightarrow> (string \<times> json) list \<Rightarrow> string \<Rightarrow> bool" where
  "verifyChecksum sha256 data checksum = (generateChecksum sha256 data = checksum)"

section \<open>Shared types\<close>

datatype GitProvider = github | gitlab | bitbucket | azure | custom

text \<open>\<^verbatim>\<open>'ssh' | 'https'\<close>: the authentication method of a profile and the type of a remote.\<close>

datatype AuthType = ssh | https

datatype BackupType = ssh_config | git_config_global | git_config_local | ssh_key

record BackupInfo =
  b_id :: string
  b_timestamp :: string
  b_type :: BackupType
  originalPath :: string
  backupPath :: string
  originalHash :: string
  reason :: string
  restored :: bool

datatype AuditCategory =
    CatProfile | CatRepository | CatSsh | CatGitConfig | CatDiscovery | CatBackup | CatSettings

definition categoryName :: "AuditCategory \<Rightarrow> string" where
  "categoryName c =
     (case c of CatProfile \<Rightarrow> ''profile'' | CatRepository \<Rightarrow> ''repository'' | CatSsh \<Rightarrow> ''ssh''
      | CatGitConfig \<Rightarrow> ''git_config'' | CatDiscovery \<Rightarrow> ''discovery''
      | CatBackup \<Rightarrow> ''backup'' | CatSettings \<Rightarrow> ''settings'')"

record AuditLogEntry =
  a_id :: string
  a_timestamp :: string
  category :: AuditCategory
  action :: string
  details :: "(string \<times> json) list"
  affectedPaths :: "string list option"
  reversible :: bool
  backupId :: "string option"
  checksum :: string

record Remote =
  r_name :: string
  url :: string
  r_type :: AuthType
  r_provider :: "GitProvider option"
  owner :: "string option"
  repo :: "string option"

datatype RepositoryStatus = bound | unbound | mismatch | error

record Repository =
  path :: string
  name :: string
  remotes :: "Remote list"
  boundProfileId :: "string option"
  localEmail :: "string option"
  localUsername :: "string option"
  detectedProvider :: "GitProvider option"
  hasMismatch :: bool
  mismatchDetails :: "string option"
  lastAccessed :: string
  status :: RepositoryStatus

section \<open>The machine: files, stores, and what the platform provides\<close>

text \<open>
  \<open>Host\<close> collects what the code takes from the platform and never computes
  itself:
  \<^item> \<open>sha256\<close>, the SHA-256 digest (in hexadecimal, of the UTF-8 bytes of a string);
  \<^item> \<open>dateValue\<close>, the number \<^verbatim>\<open>new Date(s).getTime()\<close> of a timestamp (\<open>None\<close> for
    an invalid date);
  \<^item> \<open>localTZA t isUTC\<close>, the offset of the local time zone in milliseconds
    (the abstract operation LocalTZA of the language: at the UTC instant \<open>t\<close>
    when \<open>isUTC\<close>, at the local time \<open>t\<close> otherwise);
  \<^item> \<open>unicodeLower\<close>, the engine's \<^verbatim>\<open>toLowerCase\<close> on strings that are not ASCII;
  \<^item> the process environment;
  \<^item> \<open>gitConfigFile scope baseDir exists\<close>, the file \<^verbatim>\<open>git config\<close> writes for
    a scope when it runs in \<open>baseDir\<close> (\<open>None\<close>: the working directory of the
    process) and \<open>exists\<close> tells which paths exist. The services pass git a
    scope and never a file name; git chooses the file;
  \<^item> \<open>gitConfigSet\<close>, the text \<^verbatim>\<open>git config\<close> leaves in that file when it sets a
    key (from the file's previous content, if any).
\<close>

datatype Platform = win32 | darwin | linux

datatype GitScope = ScopeLocal | ScopeGlobal

record Host =
  sha256 :: "string \<Rightarrow> string"
  dateValue :: "string \<Rightarrow> int option"
  localTZA :: "int \<Rightarrow> bool \<Rightarrow> int"
  unicodeLower :: "string \<Rightarrow> string"
  homedir :: string
  platform :: Platform
  APPDATA :: "string option"
  XDG_DATA_HOME :: "string option"
  XDG_CONFIG_HOME :: "string option"
  gitConfigFile :: "GitScope \<Rightarrow> string option \<Rightarrow> (string \<Rightarrow> bool) \<Rightarrow> string"
  gitConfigSet :: "string option \<Rightarrow> string \<Rightarrow> string \<Rightarrow> string"

text \<open>What one call draws from \<^verbatim>\<open>uuidv4()\<close> and \<^verbatim>\<open>new Date().toISOString()\<close>.\<close>

record Env =
  uuid :: string
  now :: string

text \<open>
  A primitive of \<^verbatim>\<open>fs/promises\<close> or a git invocation, named by the path it
  acts on. \<open>ioFails\<close> tells which of them reject (permission denied, disk full,
  git exiting with an error); a missing file makes a read reject as well.
\<close>

datatype fsop =
    OpRead string | OpWrite string | OpAppend string | OpMkdir string | OpUnlink string
  | OpGit string

text \<open>
  What an execution does, in order: the calls of \<^verbatim>\<open>createBackup\<close>, every change
  to a file, every save of the backup registry (with the identifiers it then
  holds), and the one warning the backup service logs.
\<close>

datatype event =
    CreateBackupCalled string
  | FileWritten string
  | FileAppended string
  | FileUnlinked string
  | RegistrySaved "string list"
  | GitConfigWritten string string
  | HashMismatchWarned string

text \<open>
  \<open>files\<close> maps a path to the bytes of the file there, \<^verbatim>\<open>registry.json\<close>
  included. A file is named by its path as a string: there are no links, and
  two different strings are two files. \<open>backupRegistry\<close> is the module-level
  array of the backup service and \<open>registryJson\<close> remembers the list whose text
  was last written to \<^verbatim>\<open>registry.json\<close>. \<open>repositories\<close> is the
  \<^verbatim>\<open>repositories\<close> key of the record store.
\<close>

record World =
  files :: "string \<Rightarrow> string option"
  ioFails :: "fsop \<Rightarrow> bool"
  backupRegistry :: "BackupInfo list"
  registryJson :: "BackupInfo list option"
  repositories :: "Repository list"
  trace :: "event list"

datatype failure =
    IOError
  | FailedToCreateBackup
  | FailedToRestoreBackup
  | FailedToSetLocalGitConfig
  | FailedToSetGlobalGitConfig
  | FailedToSetRemoteUrl

subsection \<open>\<^verbatim>\<open>utils/paths.ts\<close> and the file primitives\<close>

definition getGlobalGitConfigPath :: "Host \<Rightarrow> string" where
  "getGlobalGitConfigPath host =
     (case XDG_CONFIG_HOME host of
        Some xdgConfig \<Rightarrow>
          (if xdgConfig \<noteq> [] then pathJoin [xdgConfig, ''git'', ''config'']
           else pathJoin [homedir host, ''.gitconfig''])
      | None \<Rightarrow> pathJoin [homedir host, ''.gitconfig''])"

definition getAppDataDir :: "Host \<Rightarrow> string" where
  "getAppDataDir host =
     (case platform host of
        win32 \<Rightarrow>
          pathJoin [(case APPDATA host of
                       Some a \<Rightarrow> (if a \<noteq> [] then a else homedir host)
                     | None \<Rightarrow> homedir host), ''GitSwitch'']
      | darwin \<Rightarrow> pathJoin [homedir host, ''Library'', ''Application Support'', ''GitSwitch'']
      | linux \<Rightarrow>
          (case XDG_DATA_HOME host of
             Some xdgData \<Rightarrow>
               (if xdgData \<noteq> [] then pathJoin [xdgData, ''GitSwitch'']
                else pathJoin [homedir host, ''.local'', ''share'', ''GitSwitch''])
           | None \<Rightarrow> pathJoin [homedir host, ''.local'', ''share'', ''GitSwitch'']))"

definition getBackupDir :: "Host \<Rightarrow> string" where
  "getBackupDir host = pathJoin [getAppDataDir host, ''backups'']"

definition getAuditLogDir :: "Host \<Rightarrow> string" where
  "getAuditLogDir host = pathJoin [getAppDataDir host, ''audit'']"

text \<open>\<^verbatim>\<open>pathExists\<close> catches the rejection of \<^verbatim>\<open>fs.access\<close>: it never throws.\<close>

definition pathExists :: "World \<Rightarrow> string \<Rightarrow> bool" where
  "pathExists w p = (files w p \<noteq> None)"

text \<open>In the primitives below \<open>None\<close> is a rejected promise.\<close>

definition ensureDir :: "string \<Rightarrow> World \<Rightarrow> World option" where
  "ensureDir dirPath w = (if ioFails w (OpMkdir dirPath) then None else Some w)"

definition readFile :: "string \<Rightarrow> World \<Rightarrow> string option" where
  "readFile p w = (if ioFails w (OpRead p) then None else map_option decodeUtf8 (files w p))"

definition writeFile :: "string \<Rightarrow> string \<Rightarrow> World \<Rightarrow> World option" where
  "writeFile p content w =
     (if ioFails w (OpWrite p) then None
      else Some (w\<lparr>files := (files w)(p \<mapsto> content), trace := trace w @ [FileWritten p]\<rparr>))"

definition appendFile :: "string \<Rightarrow> string \<Rightarrow> World \<Rightarrow> World option" where
  "appendFile p content w =
     (if ioFails w (OpAppend p) then None
      else Some (w\<lparr>files := (files w)(p \<mapsto> (case files w p of None \<Rightarrow> content | Some old \<Rightarrow> old @ content)),
                   trace := trace w @ [FileAppended p]\<rparr>))"

definition unlink :: "string \<Rightarrow> World \<Rightarrow> World option" where
  "unlink p w =
     (if ioFails w (OpUnlink p) \<or> files w p = None then None
      else Some (w\<lparr>files := (files w)(p := None), trace := trace w @ [FileUnlinked p]\<rparr>))"

section \<open>The audit service\<close>

definition isSensitiveKey :: "Host \<Rightarrow> string \<Rightarrow> bool" where
  "isSensitiveKey host key =
     (let lowerKey = toLowerCase (unicodeLower host) key
      in includesStr lowerKey ''password'' \<or> includesStr lowerKey ''token'' \<or>
         includesStr lowerKey ''secret'' \<or> includesStr lowerKey ''private'')"

text \<open>
  \<^verbatim>\<open>sanitizeDetails\<close>: one pass over \<^verbatim>\<open>Object.entries(details)\<close>. The test
  \<^verbatim>\<open>value && typeof value === 'object' && !Array.isArray(value)\<close> holds of
  objects only: \<^verbatim>\<open>null\<close> is falsy and an array is excluded, so both are copied
  as they are. The result starts as \<^verbatim>\<open>{}\<close> and is filled by the assignments
  \<^verbatim>\<open>sanitized[key] = ...\<close>, in the order of the entries. For the key
  \<^verbatim>\<open>__proto__\<close> that assignment reaches the setter of \<^verbatim>\<open>Object.prototype\<close> and
  creates no property, so an entry with that key is not in the result.
\<close>

fun sanitizeDetails :: "Host \<Rightarrow> (string \<times> json) list \<Rightarrow> (string \<times> json) list" where
  "sanitizeDetails host [] = []"
| "sanitizeDetails host ((key, v) # rest) =
     (if key = ''__proto__'' then sanitizeDetails host rest
      else (if isSensitiveKey host key then (key, JStr ''[REDACTED]'')
            else (case v of
                    JObj d \<Rightarrow> (key, JObj (sanitizeDetails host d))
                  | _ \<Rightarrow> (key, v)))
           # sanitizeDetails host rest)"

record LogOptions =
  o_affectedPaths :: "string list option"
  o_reversible :: "bool option"
  o_backupId :: "string option"

definition noOptions :: LogOptions where
  "noOptions = \<lparr> o_affectedPaths = None, o_reversible = None, o_backupId = None \<rparr>"

text \<open>
  The own properties of an entry without its checksum, in the order the object
  literal of \<^verbatim>\<open>log\<close> lists them; an absent option is a property whose value is
  \<^verbatim>\<open>undefined\<close>. This is the \<^verbatim>\<open>rest\<close> of \<^verbatim>\<open>verifyEntry\<close> too: an entry read
  back from a log line lacks the \<^verbatim>\<open>undefined\<close> properties, which
  \<^verbatim>\<open>JSON.stringify\<close> leaves out in either case.
\<close>

definition entryPayload :: "AuditLogEntry \<Rightarrow> (string \<times> json) list" where
  "entryPayload e =
     [(''id'', JStr (a_id e)),
      (''timestamp'', JStr (a_timestamp e)),
      (''category'', JStr (categoryName (category e))),
      (''action'', JStr (action e)),
      (''details'', JObj (details e)),
      (''affectedPaths'', (case affectedPaths e of None \<Rightarrow> JUndefined | Some ps \<Rightarrow> JArr (map JStr ps))),
      (''reversible'', JBool (reversible e)),
      (''backupId'', (case backupId e of None \<Rightarrow> JUndefined | Some b \<Rightarrow> JStr b))]"

definition verifyEntry :: "Host \<Rightarrow> AuditLogEntry \<Rightarrow> bool" where
  "verifyEntry host entry = (generateChecksum (sha256 host) (entryPayload entry) = checksum entry)"

definition getAuditLogPath :: "Host \<Rightarrow> string \<Rightarrow> string" where
  "getAuditLogPath host date =
     pathJoin [getAuditLogDir host, ''audit-'' @ hd (splitOn CHR ''T'' date) @ ''.jsonl'']"

definition appendToLog :: "Host \<Rightarrow> Env \<Rightarrow> AuditLogEntry \<Rightarrow> World \<Rightarrow> World option" where
  "appendToLog host env entry w =
     (case ensureDir (getAuditLogDir host) w of
        None \<Rightarrow> None
      | Some w1 \<Rightarrow>
          (case JSON_stringify (JObj (entryPayload entry @ [(''checksum'', JStr (checksum entry))])) None of
             None \<Rightarrow> None
           | Some text \<Rightarrow> appendFile (getAuditLogPath host (now env)) (text @ [CHR 0x0A]) w1))"

text \<open>
  \<^verbatim>\<open>log\<close>: the entry is built and checksummed, then appended. A rejected append
  propagates to the caller.
\<close>

definition buildEntry ::
  "Host \<Rightarrow> Env \<Rightarrow> AuditCategory \<Rightarrow> string \<Rightarrow> (string \<times> json) list \<Rightarrow> LogOptions \<Rightarrow> AuditLogEntry" where
  "buildEntry host env cat act dets options =
     (let entry = \<lparr> a_id = uuid env,
                    a_timestamp = now env,
                    category = cat,
                    action = act,
                    details = sanitizeDetails host dets,
                    affectedPaths = o_affectedPaths options,
                    reversible = (case o_reversible options of None \<Rightarrow> True | Some r \<Rightarrow> r),
                    backupId = o_backupId options,
                    checksum = [] \<rparr>
      in entry\<lparr>checksum := generateChecksum (sha256 host) (entryPayload entry)\<rparr>)"

definition log ::
  "Host \<Rightarrow> Env \<Rightarrow> AuditCategory \<Rightarrow> string \<Rightarrow> (string \<times> json) list \<Rightarrow> LogOptions \<Rightarrow> World
     \<Rightarrow> (failure + AuditLogEntry) \<times> World" where
  "log host env cat act dets options w =
     (let fullEntry = buildEntry host env cat act dets options
      in case appendToLog host env fullEntry w of
           None \<Rightarrow> (Inl IOError, w)
         | Some w1 \<Rightarrow> (Inr fullEntry, w1))"

definition logProfileCreated :: "Host \<Rightarrow> Env \<Rightarrow> string \<Rightarrow> string \<Rightarrow> World \<Rightarrow> (failure + AuditLogEntry) \<times> World" where
  "logProfileCreated host env profileId label w =
     log host env CatProfile ''created''
       [(''profileId'', JStr profileId), (''label'', JStr label)] noOptions w"

definition logRepoBinding ::
  "Host \<Rightarrow> Env \<Rightarrow> string \<Rightarrow> string \<Rightarrow> string option \<Rightarrow> World \<Rightarrow> (failure + AuditLogEntry) \<times> World" where
  "logRepoBinding host env repoPath profileId bId w =
     log host env CatRepository ''bound''
       [(''repoPath'', JStr repoPath), (''profileId'', JStr profileId)]
       \<lparr> o_affectedPaths = Some [pathJoin [repoPath, ''.git'', ''config'']],
         o_reversible = None, o_backupId = bId \<rparr> w"

section \<open>The backup service\<close>

definition registryPath :: "Host \<Rightarrow> string" where
  "registryPath host = pathJoin [getBackupDir host, ''registry.json'']"

text \<open>
  The registry as a JSON document: an array of records, each with the
  properties of the object literal of \<^verbatim>\<open>createBackup\<close>, in its order.
  \<^verbatim>\<open>saveRegistry\<close> writes \<^verbatim>\<open>JSON.stringify(backupRegistry, null, 2)\<close> to
  \<^verbatim>\<open>registry.json\<close>; stringifying an array always yields a string.
\<close>

definition backupTypeName :: "BackupType \<Rightarrow> string" where
  "backupTypeName t =
     (case t of ssh_config \<Rightarrow> ''ssh_config'' | git_config_global \<Rightarrow> ''git_config_global''
      | git_config_local \<Rightarrow> ''git_config_local'' | ssh_key \<Rightarrow> ''ssh_key'')"

definition backupInfoJson :: "BackupInfo \<Rightarrow> json" where
  "backupInfoJson b =
     JObj [(''id'', JStr (b_id b)),
           (''timestamp'', JStr (b_timestamp b)),
           (''type'', JStr (backupTypeName (b_type b))),
           (''originalPath'', JStr (originalPath b)),
           (''backupPath'', JStr (backupPath b)),
           (''originalHash'', JStr (originalHash b)),
           (''reason'', JStr (reason b)),
           (''restored'', JBool (restored b))]"

definition registryText :: "BackupInfo list \<Rightarrow> string" where
  "registryText registry =
     (case serializeIndented ''  '' [] (JArr (map backupInfoJson registry)) of
        Some t \<Rightarrow> t
      | None \<Rightarrow> [])"

definition saveRegistry :: "Host \<Rightarrow> World \<Rightarrow> World option" where
  "saveRegistry host w =
     (case ensureDir (getBackupDir host) w of
        None \<Rightarrow> None
      | Some w1 \<Rightarrow>
          (case writeFile (registryPath host) (registryText (backupRegistry w1)) w1 of
             None \<Rightarrow> None
           | Some w2 \<Rightarrow>
               Some (w2\<lparr>registryJson := Some (backupRegistry w2),
                        trace := trace w2 @ [RegistrySaved (map b_id (backupRegistry w2))]\<rparr>)))"

text \<open>\<^verbatim>\<open>timestamp.replace(/[:.]/g, '-')\<close>.\<close>

definition safeTimestamp :: "string \<Rightarrow> string" where
  "safeTimestamp timestamp = map (\<lambda>c. if c = CHR '':'' \<or> c = CHR ''.'' then CHR ''-'' else c) timestamp"

definition backupFileName :: "string \<Rightarrow> string \<Rightarrow> string \<Rightarrow> string" where
  "backupFileName originalP timestamp i =
     basename originalP @ ''_'' @ safeTimestamp timestamp @ ''_'' @ take 8 i"

text \<open>
  \<^verbatim>\<open>createBackup\<close>. A missing file gives \<^verbatim>\<open>null\<close> (\<open>Inr None\<close>); any rejection
  inside the \<^verbatim>\<open>try\<close> block is rethrown as one error, with what was done before
  it left in place.
\<close>

definition createBackup ::
  "Host \<Rightarrow> Env \<Rightarrow> string \<Rightarrow> BackupType \<Rightarrow> string \<Rightarrow> World \<Rightarrow> (failure + BackupInfo option) \<times> World" where
  "createBackup host env originalP t why w0 =
     (let w = w0\<lparr>trace := trace w0 @ [CreateBackupCalled originalP]\<rparr>
      in if \<not> pathExists w originalP then (Inr None, w)
         else
           (case readFile originalP w of
              None \<Rightarrow> (Inl FailedToCreateBackup, w)
            | Some content \<Rightarrow>
                (let hash = sha256 host content;
                     i = uuid env;
                     timestamp = now env;
                     backupDir = getBackupDir host
                 in case ensureDir backupDir w of
                      None \<Rightarrow> (Inl FailedToCreateBackup, w)
                    | Some w1 \<Rightarrow>
                        (let backupP = pathJoin [backupDir, backupFileName originalP timestamp i]
                         in case writeFile backupP content w1 of
                              None \<Rightarrow> (Inl FailedToCreateBackup, w1)
                            | Some w2 \<Rightarrow>
                                (let backup = \<lparr> b_id = i,
                                                 b_timestamp = timestamp,
                                                 b_type = t,
                                                 originalPath = originalP,
                                                 backupPath = backupP,
                                                 originalHash = hash,
                                                 reason = why,
                                                 restored = False \<rparr>;
                                     w3 = w2\<lparr>backupRegistry := backupRegistry w2 @ [backup]\<rparr>
                                 in case saveRegistry host w3 of
                                      None \<Rightarrow> (Inl FailedToCreateBackup, w3)
                                    | Some w4 \<Rightarrow> (Inr (Some backup), w4))))))"



text \<open>
  \<^verbatim>\<open>deleteBackup\<close>: \<^verbatim>\<open>splice(index, 1)\<close> removes the element at \<open>index\<close>. The
  \<^verbatim>\<open>catch\<close> block turns every rejection into \<^verbatim>\<open>false\<close>.
\<close>

definition deleteBackup :: "Host \<Rightarrow> string \<Rightarrow> World \<Rightarrow> bool \<times> World" where
  "deleteBackup host backupI w =
     (case findIndex (\<lambda>b. b_id b = backupI) (backupRegistry w) of
        None \<Rightarrow> (False, w)
      | Some index \<Rightarrow>
          (let backup = backupRegistry w ! index;
               unlinked = (if pathExists w (backupPath backup) then unlink (backupPath backup) w
                           else Some w)
           in case unlinked of
                None \<Rightarrow> (False, w)
              | Some w1 \<Rightarrow>
                  (let w2 = w1\<lparr>backupRegistry :=
                                take index (backupRegistry w1) @ drop (Suc index) (backupRegistry w1)\<rparr>
                   in case saveRegistry host w2 of
                        None \<Rightarrow> (False, w2)
                      | Some w3 \<Rightarrow> (True, w3))))"

text \<open>
  \<^verbatim>\<open>cleanupOldBackups\<close>. \<open>nowMs\<close> is the time value of \<^verbatim>\<open>new Date()\<close> and
  \<open>retentionDays\<close> an integer. \<^verbatim>\<open>setDate(getDate() - retentionDays)\<close> works on
  local time: with \<open>t = LocalTime(now)\<close>, the new local time is
  \<^verbatim>\<open>MakeDate(MakeDay(YearFromTime(t), MonthFromTime(t), DateFromTime(t) - retentionDays), TimeWithinDay(t))\<close>.
  \<^verbatim>\<open>MakeDay\<close> counts days from the first of the month, so that day is
  \<open>Day(t) - retentionDays\<close> and the new local time is \<open>t\<close> minus \<open>retentionDays\<close>
  days of 86400000 ms: the same time of day on the local calendar. The new
  time value is \<^verbatim>\<open>TimeClip(UTC(...))\<close>, the local time taken back to UTC with
  the offset in force then; \<open>None\<close> is the invalid date \<^verbatim>\<open>TimeClip\<close> gives outside
  the range of dates. The result is \<open>retentionDays\<close> times 24 hours before
  \<open>nowMs\<close> only if the zone offset is the same at both ends. A comparison with
  an invalid date is false.
\<close>

definition msPerDay :: int where
  "msPerDay = 86400000"

definition timeClip :: "int \<Rightarrow> int option" where
  "timeClip t = (if abs t > 8640000000000000 then None else Some t)"

definition cutoffDate :: "Host \<Rightarrow> int \<Rightarrow> int \<Rightarrow> int option" where
  "cutoffDate host nowMs retentionDays =
     (let t = nowMs + localTZA host nowMs True;
          newDate = t - retentionDays * msPerDay
      in timeClip (newDate - localTZA host newDate False))"

definition isExpired :: "Host \<Rightarrow> int option \<Rightarrow> BackupInfo \<Rightarrow> bool" where
  "isExpired host cutoff backup =
     ((case dateValue host (b_timestamp backup) of
         None \<Rightarrow> False
       | Some backupDate \<Rightarrow> (case cutoff of None \<Rightarrow> False | Some c \<Rightarrow> backupDate < c))
      \<and> \<not> restored backup)"

fun deleteAll :: "Host \<Rightarrow> string list \<Rightarrow> nat \<Rightarrow> World \<Rightarrow> nat \<times> World" where
  "deleteAll host [] deletedCount w = (deletedCount, w)"
| "deleteAll host (i # toDelete) deletedCount w =
     (case deleteBackup host i w of
        (True, w1) \<Rightarrow> deleteAll host toDelete (deletedCount + 1) w1
      | (False, w1) \<Rightarrow> deleteAll host toDelete deletedCount w1)"

definition cleanupOldBackups :: "Host \<Rightarrow> int \<Rightarrow> int \<Rightarrow> World \<Rightarrow> nat \<times> World" where
  "cleanupOldBackups host nowMs retentionDays w =
     (let cutoff = cutoffDate host nowMs retentionDays;
          toDelete = map b_id (filter (isExpired host cutoff) (backupRegistry w))
      in deleteAll host toDelete 0 w)"

section \<open>The git service\<close>

subsection \<open>Regular expressions\<close>

text \<open>
  The two patterns of \<^verbatim>\<open>parseRemoteUrl\<close> are sequences of: literal text, an
  optional literal group \<^verbatim>\<open>(?:l)?\<close>, a capturing group around a greedy
  \<^verbatim>\<open>[...]+\<close> or a lazy \<^verbatim>\<open>.+?\<close>, and \<^verbatim>\<open>$\<close>. \<open>matchHere\<close> is the backtracking
  matcher of the language at a fixed start: a greedy group tries its longest
  extent first, a lazy one its shortest, an optional group is tried present
  first; the result is the captures of the first alternative that lets the rest
  of the pattern match. \<open>search\<close> is \<^verbatim>\<open>String.prototype.match\<close> without the
  \<^verbatim>\<open>g\<close> flag: the match at the leftmost start.

  A character class is a test on the input from the current position on: it
  tells whether the character starting there belongs to the class. The test
  sees more than one byte because a character outside ASCII is several bytes
  of the representation.
\<close>

datatype rx =
    Lit string
  | Opt string
  | PlusGreedy "string \<Rightarrow> bool"
  | PlusLazy "string \<Rightarrow> bool"
  | EndOfInput

text \<open>The non-empty prefixes of \<open>s\<close> made of characters of the class, shortest first,
  each with the rest of \<open>s\<close>.\<close>

fun runs :: "(string \<Rightarrow> bool) \<Rightarrow> string \<Rightarrow> (string \<times> string) list" where
  "runs P [] = []"
| "runs P (c # cs) =
     (if P (c # cs) then ([c], cs) # map (\<lambda>pr. (c # fst pr, snd pr)) (runs P cs) else [])"

fun firstSome :: "'a option list \<Rightarrow> 'a option" where
  "firstSome [] = None"
| "firstSome (None # xs) = firstSome xs"
| "firstSome (Some x # xs) = Some x"

fun matchHere :: "rx list \<Rightarrow> string \<Rightarrow> string list option" where
  "matchHere [] s = Some []"
| "matchHere (Lit l # r) s =
     (if startsWith s l then matchHere r (drop (length l) s) else None)"
| "matchHere (Opt l # r) s =
     (case (if startsWith s l then matchHere r (drop (length l) s) else None) of
        Some m \<Rightarrow> Some m
      | None \<Rightarrow> matchHere r s)"
| "matchHere (PlusGreedy P # r) s =
     firstSome (map (\<lambda>pr. map_option (\<lambda>m. fst pr # m) (matchHere r (snd pr))) (rev (runs P s)))"
| "matchHere (PlusLazy P # r) s =
     firstSome (map (\<lambda>pr. map_option (\<lambda>m. fst pr # m) (matchHere r (snd pr))) (runs P s))"
| "matchHere (EndOfInput # r) s = (if s = [] then matchHere r s else None)"

fun search :: "rx list \<Rightarrow> string \<Rightarrow> string list option" where
  "search r [] = matchHere r []"
| "search r (c # cs) =
     (case matchHere r (c # cs) of Some m \<Rightarrow> Some m | None \<Rightarrow> search r cs)"

text \<open>
  \<^verbatim>\<open>.\<close> matches every character but the line terminators: U+000A, U+000D,
  U+2028 and U+2029, the last two being the bytes \<^verbatim>\<open>E2 80 A8\<close> and
  \<^verbatim>\<open>E2 80 A9\<close>. \<^verbatim>\<open>[^x]\<close> matches every character but \<open>x\<close>.
\<close>

definition dot :: "string \<Rightarrow> bool" where
  "dot s =
     (case s of
        [] \<Rightarrow> False
      | c # cs \<Rightarrow>
          c \<noteq> CHR 0x0A \<and> c \<noteq> CHR 0x0D
          \<and> \<not> startsWith s [CHR 0xE2, CHR 0x80, CHR 0xA8]
          \<and> \<not> startsWith s [CHR 0xE2, CHR 0x80, CHR 0xA9])"

definition noneOf :: "char \<Rightarrow> string \<Rightarrow> bool" where
  "noneOf x s = (case s of [] \<Rightarrow> False | c # cs \<Rightarrow> c \<noteq> x)"

text \<open>\<^verbatim>\<open>/git@([^:]+):([^/]+)\/(.+?)(?:\.git)?$/\<close>\<close>

definition sshPattern :: "rx list" where
  "sshPattern =
     [Lit ''git@'', PlusGreedy (noneOf CHR '':''), Lit '':'', PlusGreedy (noneOf CHR ''/''),
      Lit ''/'', PlusLazy dot, Opt ''.git'', EndOfInput]"

text \<open>\<^verbatim>\<open>/https?:\/\/([^/]+)\/([^/]+)\/(.+?)(?:\.git)?$/\<close>\<close>

definition httpsPattern :: "rx list" where
  "httpsPattern =
     [Lit ''http'', Opt ''s'', Lit ''://'', PlusGreedy (noneOf CHR ''/''), Lit ''/'',
      PlusGreedy (noneOf CHR ''/''), Lit ''/'', PlusLazy dot, Opt ''.git'', EndOfInput]"

subsection \<open>\<^verbatim>\<open>parseRemoteUrl\<close>\<close>

record ParsedRemote =
  pr_type :: AuthType
  pr_provider :: "GitProvider option"
  pr_owner :: "string option"
  pr_repo :: "string option"

definition providerOfHost :: "string \<Rightarrow> GitProvider option" where
  "providerOfHost host =
     (if includesStr host ''github'' then Some github
      else if includesStr host ''gitlab'' then Some gitlab
      else if includesStr host ''bitbucket'' then Some bitbucket
      else if includesStr host ''azure'' \<or> includesStr host ''visualstudio'' then Some azure
      else None)"

definition parseRemoteUrl :: "string \<Rightarrow> ParsedRemote" where
  "parseRemoteUrl u =
     (let result = \<lparr> pr_type = (if includesStr u ''@'' \<and> \<not> startsWith u ''https://'' then ssh else https),
                     pr_provider = None, pr_owner = None, pr_repo = None \<rparr>
      in case search sshPattern u of
           Some [host, own, rep] \<Rightarrow>
             result\<lparr>pr_owner := Some own, pr_repo := Some rep, pr_provider := providerOfHost host\<rparr>
         | _ \<Rightarrow>
             (case search httpsPattern u of
                Some [host, own, rep] \<Rightarrow>
                  result\<lparr>pr_owner := Some own, pr_repo := Some rep, pr_provider := providerOfHost host\<rparr>
              | _ \<Rightarrow> result))"

subsection \<open>\<^verbatim>\<open>setLocalConfig\<close>, \<^verbatim>\<open>setGlobalConfig\<close> and \<^verbatim>\<open>setRemoteUrl\<close>\<close>

text \<open>
  \<^verbatim>\<open>git.addConfig(key, value, false, scope)\<close> on the instance made by
  \<^verbatim>\<open>createGitInstance(baseDir)\<close> runs \<^verbatim>\<open>git config\<close> with the scope, in
  \<open>baseDir\<close>. The call names no file: the file written is the one git chooses,
  \<open>gitConfigFile host scope baseDir\<close> for the paths that exist at that moment.
\<close>

definition addConfig ::
  "Host \<Rightarrow> string option \<Rightarrow> string \<Rightarrow> string \<Rightarrow> GitScope \<Rightarrow> World \<Rightarrow> World option" where
  "addConfig host baseDir key v scope w =
     (let configFile = gitConfigFile host scope baseDir (pathExists w)
      in if ioFails w (OpGit (configFile @ '' '' @ key)) then None
         else Some (w\<lparr>files := (files w)(configFile \<mapsto> gitConfigSet host (files w configFile) key v),
                      trace := trace w @ [GitConfigWritten configFile key]\<rparr>))"

record GitIdentity =
  g_email :: "string option"
  g_username :: "string option"

text \<open>\<^verbatim>\<open>if (value) await git.addConfig(key, value, false, scope)\<close>.\<close>

definition addConfigIf ::
  "Host \<Rightarrow> string option \<Rightarrow> string \<Rightarrow> string option \<Rightarrow> GitScope \<Rightarrow> World \<Rightarrow> World option" where
  "addConfigIf host baseDir key v scope w =
     (case v of
        None \<Rightarrow> Some w
      | Some x \<Rightarrow> (if x \<noteq> [] then addConfig host baseDir key x scope w else Some w))"

definition setLocalConfig ::
  "Host \<Rightarrow> Env \<Rightarrow> Env \<Rightarrow> string \<Rightarrow> GitIdentity \<Rightarrow> World \<Rightarrow> (failure + unit) \<times> World" where
  "setLocalConfig host envBackup envAudit repoPath config w =
     (let localConfigPath = pathJoin [repoPath, ''.git'', ''config'']
      in case createBackup host envBackup localConfigPath git_config_local
                (''Setting local config for '' @ basename repoPath) w of
           (Inl e, w1) \<Rightarrow> (Inl FailedToSetLocalGitConfig, w1)
         | (Inr backup, w1) \<Rightarrow>
             (case addConfigIf host (Some repoPath) ''user.email'' (g_email config) ScopeLocal w1 of
                None \<Rightarrow> (Inl FailedToSetLocalGitConfig, w1)
              | Some w2 \<Rightarrow>
                  (case addConfigIf host (Some repoPath) ''user.name'' (g_username config) ScopeLocal w2 of
                     None \<Rightarrow> (Inl FailedToSetLocalGitConfig, w2)
                   | Some w3 \<Rightarrow>
                       (case logRepoBinding host envAudit repoPath ''direct-config''
                               (map_option b_id backup) w3 of
                          (Inl e, w4) \<Rightarrow> (Inl FailedToSetLocalGitConfig, w4)
                        | (Inr entry, w4) \<Rightarrow> (Inr (), w4)))))"

definition setGlobalConfig ::
  "Host \<Rightarrow> Env \<Rightarrow> GitIdentity \<Rightarrow> World \<Rightarrow> (failure + unit) \<times> World" where
  "setGlobalConfig host envBackup config w =
     (let globalConfigPath = getGlobalGitConfigPath host
      in case createBackup host envBackup globalConfigPath git_config_global
                ''Setting global git config'' w of
           (Inl e, w1) \<Rightarrow> (Inl FailedToSetGlobalGitConfig, w1)
         | (Inr backup, w1) \<Rightarrow>
             (case addConfigIf host None ''user.email'' (g_email config) ScopeGlobal w1 of
                None \<Rightarrow> (Inl FailedToSetGlobalGitConfig, w1)
              | Some w2 \<Rightarrow>
                  (case addConfigIf host None ''user.name'' (g_username config) ScopeGlobal w2 of
                     None \<Rightarrow> (Inl FailedToSetGlobalGitConfig, w2)
                   | Some w3 \<Rightarrow> (Inr (), w3))))"

text \<open>
  \<^verbatim>\<open>setRemoteUrl\<close>: \<^verbatim>\<open>git remote set-url\<close> in the repository sets the key
  \<^verbatim>\<open>remote.<name>.url\<close> of the repository's config. No backup is asked for.
\<close>

definition setRemoteUrl ::
  "Host \<Rightarrow> string \<Rightarrow> string \<Rightarrow> string \<Rightarrow> World \<Rightarrow> (failure + unit) \<times> World" where
  "setRemoteUrl host repoPath remoteName u w =
     (case addConfig host (Some repoPath) (''remote.'' @ remoteName @ ''.url'') u ScopeLocal w of
        None \<Rightarrow> (Inl FailedToSetRemoteUrl, w)
      | Some w1 \<Rightarrow> (Inr (), w1))"

section \<open>Repositories in the record store, and the unbind handler\<close>

definition getRepository :: "string \<Rightarrow> Repository list \<Rightarrow> Repository option" where
  "getRepository p repos = find (\<lambda>r. path r = p) repos"

definition saveRepository :: "Repository \<Rightarrow> Repository list \<Rightarrow> Repository list" where
  "saveRepository r repos =
     (case findIndex (\<lambda>x. path x = path r) repos of
        Some index \<Rightarrow> repos[index := r]
      | None \<Rightarrow> repos @ [r])"

text \<open>
  The handler of \<^verbatim>\<open>IPC_CHANNELS.REPO_UNBIND\<close>: the stored record, if there is
  one, loses its \<^verbatim>\<open>boundProfileId\<close> and is saved; the answer is
  \<^verbatim>\<open>createSuccess({ unbound: true })\<close> in either case.
\<close>

datatype 'a IpcResult = Success 'a | Failure string string

definition repoUnbind :: "string \<Rightarrow> World \<Rightarrow> bool IpcResult \<times> World" where
  "repoUnbind repoPath w =
     (case getRepository repoPath (repositories w) of
        None \<Rightarrow> (Success True, w)
      | Some r \<Rightarrow>
          (Success True,
           w\<lparr>repositories := saveRepository (r\<lparr>boundProfileId := None\<rparr>) (repositories w)\<rparr>))"

section \<open>Profiles and the record store\<close>

record Profile =
  p_id :: string
  p_label :: string
  p_provider :: GitProvider
  p_username :: string
  p_email :: string
  authType :: AuthType
  sshKeyPath :: "string option"
  sshHostAlias :: "string option"
  tokenId :: "string option"
  isDefault :: bool
  color :: string
  createdAt :: string
  updatedAt :: string

record CreateProfileInput =
  c_label :: string
  c_provider :: GitProvider
  c_username :: string
  c_email :: string
  c_authType :: AuthType
  c_sshKeyPath :: "string option"
  c_generateNewKey :: "bool option"
  c_token :: "string option"
  c_isDefault :: "bool option"
  c_color :: "string option"

record UpdateProfileInput =
  u_id :: string
  u_label :: "string option"
  u_provider :: "GitProvider option"
  u_username :: "string option"
  u_email :: "string option"
  u_authType :: "AuthType option"
  u_sshKeyPath :: "string option"
  u_token :: "string option"
  u_isDefault :: "bool option"
  u_color :: "string option"

subsection \<open>\<^verbatim>\<open>secureStore\<close>: profile operations\<close>

definition getProfile :: "string \<Rightarrow> Profile list \<Rightarrow> Profile option" where
  "getProfile i profiles = find (\<lambda>p. p_id p = i) profiles"

definition saveProfile :: "Profile \<Rightarrow> Profile list \<Rightarrow> Profile list" where
  "saveProfile profile profiles =
     (case findIndex (\<lambda>p. p_id p = p_id profile) profiles of
        Some index \<Rightarrow> profiles[index := profile]
      | None \<Rightarrow> profiles @ [profile])"

definition deleteProfile :: "string \<Rightarrow> Profile list \<Rightarrow> bool \<times> Profile list" where
  "deleteProfile i profiles =
     (let filtered = filter (\<lambda>p. p_id p \<noteq> i) profiles
      in if length filtered \<noteq> length profiles then (True, filtered)
         else (False, profiles))"

definition setDefaultProfile :: "string \<Rightarrow> Profile list \<Rightarrow> Profile list" where
  "setDefaultProfile i profiles = map (\<lambda>p. p\<lparr>isDefault := (p_id p = i)\<rparr>) profiles"

subsection \<open>\<^verbatim>\<open>profileService\<close>\<close>

text \<open>
  \<^verbatim>\<open>getDefault\<close>: \<^verbatim>\<open>profiles.find(p => p.isDefault) || profiles[0]\<close>. A profile
  object is truthy, so the right operand is taken exactly when \<^verbatim>\<open>find\<close> returns
  \<^verbatim>\<open>undefined\<close>; \<^verbatim>\<open>profiles[0]\<close> of an empty array is \<^verbatim>\<open>undefined\<close>.
\<close>

definition getDefault :: "Profile list \<Rightarrow> Profile option" where
  "getDefault profiles =
     (case find isDefault profiles of
        Some p \<Rightarrow> Some p
      | None \<Rightarrow> (case profiles of [] \<Rightarrow> None | p # _ \<Rightarrow> Some p))"

text \<open>
  \<^verbatim>\<open>getProviderHostname\<close>: the table lookup falls back to the provider's own name.
\<close>

definition providerName :: "GitProvider \<Rightarrow> string" where
  "providerName g =
     (case g of github \<Rightarrow> ''github'' | gitlab \<Rightarrow> ''gitlab''
      | bitbucket \<Rightarrow> ''bitbucket'' | azure \<Rightarrow> ''azure'' | custom \<Rightarrow> ''custom'')"

definition getProviderHostname :: "GitProvider \<Rightarrow> string" where
  "getProviderHostname g =
     (case g of github \<Rightarrow> ''github.com'' | gitlab \<Rightarrow> ''gitlab.com''
      | bitbucket \<Rightarrow> ''bitbucket.org'' | azure \<Rightarrow> ''ssh.dev.azure.com''
      | custom \<Rightarrow> ''custom'')"

text \<open>
  What \<^verbatim>\<open>create\<close> draws from outside the store: the new identifier, the clock,
  the private key path returned by the key generator, the palette colour
  \<^verbatim>\<open>getProfileColor(existingProfiles.length)\<close>, and the engine's
  \<^verbatim>\<open>toLowerCase\<close> on a label that is not ASCII.
\<close>

record CreateEnv = Env +
  generatedKeyPath :: string
  paletteColor :: "nat \<Rightarrow> string"
  labelLower :: "string \<Rightarrow> string"

definition isAlnumLower :: "char \<Rightarrow> bool" where
  "isAlnumLower c =
     (((97::nat) \<le> of_char c \<and> of_char c \<le> (122::nat)) \<or>
      ((48::nat) \<le> of_char c \<and> of_char c \<le> (57::nat)))"

text \<open>
  \<^verbatim>\<open>create\<close>. The key generator, the SSH config writer and the token vault act
  outside the profile list and run before the first store write, so a failure
  of theirs leaves the list as it was; the model keeps their results only. A
  truthy \<^verbatim>\<open>input.token\<close> is a non-empty string, a truthy \<^verbatim>\<open>input.color\<close>
  likewise.
\<close>

definition create :: "CreateEnv \<Rightarrow> CreateProfileInput \<Rightarrow> Profile list \<Rightarrow> Profile \<times> Profile list" where
  "create env input profiles =
     (let gen = (c_authType input = ssh \<and> truthyBool (c_generateNewKey input));
          keyPath = (if gen then Some (generatedKeyPath env) else c_sshKeyPath input);
          alias = (if gen
                   then Some (providerName (c_provider input) @ ''-'' @
                              filter isAlnumLower (toLowerCase (labelLower env) (c_label input)))
                   else None);
          tok = (if c_authType input = https \<and> truthyStr (c_token input)
                 then Some (uuid env) else None);
          existingProfiles = profiles;
          profile = \<lparr> p_id = uuid env,
                      p_label = c_label input,
                      p_provider = c_provider input,
                      p_username = c_username input,
                      p_email = c_email input,
                      authType = c_authType input,
                      sshKeyPath = keyPath,
                      sshHostAlias = alias,
                      tokenId = tok,
                      isDefault = (truthyBool (c_isDefault input) \<or> length existingProfiles = 0),
                      color = (if truthyStr (c_color input) then the (c_color input)
                               else paletteColor env (length existingProfiles)),
                      createdAt = now env,
                      updatedAt = now env \<rparr>;
          cleared = (if isDefault profile
                     then fold saveProfile (map (\<lambda>p. p\<lparr>isDefault := False\<rparr>) profiles) profiles
                     else profiles)
      in (profile, saveProfile profile cleared))"

text \<open>
  \<^verbatim>\<open>update\<close>. \<^verbatim>\<open>input.isDefault && !existing.isDefault\<close> rewrites every stored
  flag; the merged record takes \<^verbatim>\<open>input.isDefault ?? existing.isDefault\<close>, so an
  explicit \<^verbatim>\<open>false\<close> is kept. The second argument is the clock.
\<close>

definition update :: "string \<Rightarrow> UpdateProfileInput \<Rightarrow> Profile list \<Rightarrow> Profile option \<times> Profile list" where
  "update clock input profiles =
     (case getProfile (u_id input) profiles of
        None \<Rightarrow> (None, profiles)
      | Some existing \<Rightarrow>
          (let profiles1 =
                 (if truthyBool (u_isDefault input) \<and> \<not> isDefault existing
                  then fold saveProfile
                         (map (\<lambda>p. p\<lparr>isDefault := (p_id p = u_id input)\<rparr>) profiles) profiles
                  else profiles);
               updated = existing
                 \<lparr> p_label := orElse (u_label input) (p_label existing),
                   p_provider := orElse (u_provider input) (p_provider existing),
                   p_username := orElse (u_username input) (p_username existing),
                   p_email := orElse (u_email input) (p_email existing),
                   authType := orElse (u_authType input) (authType existing),
                   sshKeyPath := (case u_sshKeyPath input of None \<Rightarrow> sshKeyPath existing
                                  | Some k \<Rightarrow> Some k),
                   isDefault := orElse (u_isDefault input) (isDefault existing),
                   color := orElse (u_color input) (color existing),
                   updatedAt := clock \<rparr>
           in (Some updated, saveProfile updated profiles1)))"

definition setDefault :: "string \<Rightarrow> Profile list \<Rightarrow> bool \<times> Profile list" where
  "setDefault i profiles =
     (case getProfile i profiles of
        None \<Rightarrow> (False, profiles)
      | Some profile \<Rightarrow> (True, setDefaultProfile i profiles))"

text \<open>
  \<^verbatim>\<open>delete\<close>: after the store delete, a deleted default hands the flag to the
  first remaining profile.
\<close>

definition delete :: "string \<Rightarrow> Profile list \<Rightarrow> bool \<times> Profile list" where
  "delete i profiles =
     (case getProfile i profiles of
        None \<Rightarrow> (False, profiles)
      | Some profile \<Rightarrow>
          (let (success, profiles1) = deleteProfile i profiles
           in if success \<and> isDefault profile
              then (case profiles1 of
                      [] \<Rightarrow> (success, profiles1)
                    | r # _ \<Rightarrow> (success, snd (setDefault (p_id r) profiles1)))
              else (success, profiles1)))"

text \<open>A request to the profile service, and a run of requests against the store.\<close>

datatype ProfileOp =
    OpCreate CreateEnv CreateProfileInput
  | OpUpdate string UpdateProfileInput
  | OpDelete string
  | OpSetDefault string

fun applyOp :: "ProfileOp \<Rightarrow> Profile list \<Rightarrow> Profile list" where
  "applyOp (OpCreate env input) profiles = snd (create env input profiles)"
| "applyOp (OpUpdate clock input) profiles = snd (update clock input profiles)"
| "applyOp (OpDelete i) profiles = snd (delete i profiles)"
| "applyOp (OpSetDefault i) profiles = snd (setDefault i profiles)"

definition runOps :: "ProfileOp list \<Rightarrow> Profile list \<Rightarrow> Profile list" where
  "runOps ops profiles = fold applyOp ops profiles"

definition defaultCount :: "Profile list \<Rightarrow> nat" where
  "defaultCount profiles = length (filter isDefault profiles)"

text \<open>
  The store as the services expect it: the ids of the stored profiles are
  pairwise distinct (\<^verbatim>\<open>saveProfile\<close> replaces by id) and at most one profile is
  flagged as default. A run of requests has fresh ids when every
  \<^verbatim>\<open>create\<close> of the run draws an id (\<^verbatim>\<open>uuidv4()\<close>) that no stored profile has at
  that moment.
\<close>

definition wellFormedStore :: "Profile list \<Rightarrow> bool" where
  "wellFormedStore profiles = (distinct (map p_id profiles) \<and> defaultCount profiles \<le> 1)"

fun freshIds :: "ProfileOp list \<Rightarrow> Profile list \<Rightarrow> bool" where
  "freshIds [] profiles = True"
| "freshIds (OpCreate env input # ops) profiles =
     (uuid env \<notin> set (map p_id profiles) \<and> freshIds ops (applyOp (OpCreate env input) profiles))"
| "freshIds (operation # ops) profiles = freshIds ops (applyOp operation profiles)"

section \<open>Reading a details map along a path of keys\<close>

text \<open>
  \<open>valueAt v ks\<close> follows the keys \<open>ks\<close> from \<open>v\<close> through nested objects;
  it stops with \<open>None\<close> at a missing key and at anything that is not an object
  (an array included).
\<close>

fun valueAt :: "json \<Rightarrow> string list \<Rightarrow> json option" where
  "valueAt v [] = Some v"
| "valueAt (JObj d) (k # ks) = (case map_of d k of None \<Rightarrow> None | Some v \<Rightarrow> valueAt v ks)"
| "valueAt v (k # ks) = None"

text \<open>What \<^verbatim>\<open>sanitizeDetails\<close> stores under a key that is not secret-like.\<close>

definition sanitizeValue :: "Host \<Rightarrow> json \<Rightarrow> json" where
  "sanitizeValue host v = (case v of JObj d \<Rightarrow> JObj (sanitizeDetails host d) | _ \<Rightarrow> v)"

text \<open>
  The redaction the specification describes, for comparison: every secret-like
  key at any depth, inside arrays as well.
\<close>

fun redactEverywhere :: "Host \<Rightarrow> json \<Rightarrow> json" where
  "redactEverywhere host (JObj d) =
     JObj (map (\<lambda>e. (fst e, if isSensitiveKey host (fst e) then JStr ''[REDACTED]''
                              else redactEverywhere host (snd e))) d)"
| "redactEverywhere host (JArr xs) = JArr (map (redactEverywhere host) xs)"
| "redactEverywhere host v = v"

section \<open>Sample data\<close>

definition sampleProfile :: "string \<Rightarrow> bool \<Rightarrow> Profile" where
  "sampleProfile i d =
     \<lparr> p_id = i, p_label = ''Work'', p_provider = github, p_username = ''dev'',
       p_email = ''dev@example.com'', authType = https, sshKeyPath = None,
       sshHostAlias = None, tokenId = None, isDefault = d, color = ''#238636'',
       createdAt = ''2026-01-01T00:00:00.000Z'', updatedAt = ''2026-01-01T00:00:00.000Z'' \<rparr>"

text \<open>
  The label of the examples is ASCII, so the engine's lower-casing of other
  labels is never asked for; the identity stands in for it.
\<close>

definition sampleCreateEnv :: CreateEnv where
  "sampleCreateEnv =
     \<lparr> uuid = ''p1'', now = ''2026-01-01T00:00:00.000Z'', generatedKeyPath = [],
       paletteColor = (\<lambda>n. ''#238636''), labelLower = (\<lambda>s. s) \<rparr>"

definition sampleCreateInput :: CreateProfileInput where
  "sampleCreateInput =
     \<lparr> c_label = ''Work'', c_provider = github, c_username = ''dev'',
       c_email = ''dev@example.com'', c_authType = https, c_sshKeyPath = None,
       c_generateNewKey = None, c_token = None, c_isDefault = None, c_color = None \<rparr>"

definition sampleUnsetDefault :: UpdateProfileInput where
  "sampleUnsetDefault =
     \<lparr> u_id = ''p1'', u_label = None, u_provider = None, u_username = None, u_email = None,
       u_authType = None, u_sshKeyPath = None, u_token = None, u_isDefault = Some False,
       u_color = None \<rparr>"

definition sampleRepository :: Repository where
  "sampleRepository =
     \<lparr> path = ''/home/dev/widgets'', name = ''widgets'', remotes = [],
       boundProfileId = Some ''p1'', localEmail = Some ''dev@example.com'',
       localUsername = Some ''dev'', detectedProvider = Some github, hasMismatch = False,
       mismatchDetails = None, lastAccessed = ''2026-01-01T00:00:00.000Z'', status = bound \<rparr>"

definition emptyWorld :: World where
  "emptyWorld =
     \<lparr> files = (\<lambda>p. None), ioFails = (\<lambda>operation. False), backupRegistry = [],
       registryJson = None, repositories = [], trace = [] \<rparr>"

definition sampleEnv :: Env where
  "sampleEnv =
     \<lparr> uuid = ''0b8f6c1e-7a55-4c1b-9d3e-2f4a6b8c0d1e'', now = ''2026-01-01T00:00:00.000Z'' \<rparr>"

text \<open>The entry \<^verbatim>\<open>logProfileCreated('p1', 'Work')\<close> builds, for any digest function.\<close>

definition sampleEntry :: "Host \<Rightarrow> AuditLogEntry" where
  "sampleEntry host =
     buildEntry host sampleEnv CatProfile ''created''
       [(''profileId'', JStr ''p1''), (''label'', JStr ''Work'')] noOptions"

text \<open>The keys of an entry without its checksum, sorted: the property list of the checksum.\<close>

definition entryKeys :: "string list" where
  "entryKeys = [''action'', ''affectedPaths'', ''backupId'', ''category'', ''details'', ''id'',
                ''reversible'', ''timestamp'']"

definition sampleDetails :: "(string \<times> json) list" where
  "sampleDetails =
     [(''user'', JObj [(''apiToken'', JStr ''abc''), (''name'', JStr ''dev'')]),
      (''tags'', JArr [JStr ''x''])]"

definition sampleArrayDetails :: "(string \<times> json) list" where
  "sampleArrayDetails = [(''items'', JArr [JObj [(''token'', JStr ''abc'')]])]"


text \<open>
  The file git writes, as \<^verbatim>\<open>git-config(1)\<close> documents it, for a user whose
  home directory is \<open>home\<close> and whose \<^verbatim>\<open>XDG_CONFIG_HOME\<close> is \<open>xdg\<close>. With
  \<^verbatim>\<open>--local\<close>, in a plain working tree, it is \<^verbatim>\<open>.git/config\<close> there. With
  \<^verbatim>\<open>--global\<close> it is \<^verbatim>\<open>~/.gitconfig\<close>, unless that file does not exist and
  \<^verbatim>\<open>$XDG_CONFIG_HOME/git/config\<close> does (\<^verbatim>\<open>~/.config/git/config\<close> when the
  variable is unset or empty).
\<close>

definition documentedGitFile ::
  "string \<Rightarrow> string option \<Rightarrow> GitScope \<Rightarrow> string option \<Rightarrow> (string \<Rightarrow> bool) \<Rightarrow> string" where
  "documentedGitFile home xdg scope baseDir exists =
     (case scope of
        ScopeLocal \<Rightarrow> pathJoin [(case baseDir of None \<Rightarrow> ''.'' | Some d \<Rightarrow> d), ''.git'', ''config'']
      | ScopeGlobal \<Rightarrow>
          (let homeFile = pathJoin [home, ''.gitconfig''];
               xdgFile = (case xdg of
                            None \<Rightarrow> pathJoin [home, ''.config'', ''git'', ''config'']
                          | Some x \<Rightarrow>
                              (if x \<noteq> [] then pathJoin [x, ''git'', ''config'']
                               else pathJoin [home, ''.config'', ''git'', ''config'']))
           in if \<not> exists homeFile \<and> exists xdgFile then xdgFile else homeFile))"

text \<open>
  A host for the examples: a Linux user in a zone without offset, git as
  documented. Its digest and the text its \<^verbatim>\<open>git config\<close> writes are stand-ins,
  and so is its lower-casing of strings that are not ASCII: the examples pass
  ASCII strings, and none depends on what the stand-ins compute.
\<close>

definition sampleHost :: Host where
  "sampleHost =
     \<lparr> sha256 = (\<lambda>s. ''sha256:'' @ s),
       dateValue = (\<lambda>s. if s = ''2026-01-01T00:00:00.000Z'' then Some 1767225600000
                         else if s = ''2026-02-10T00:00:00.000Z'' then Some 1770681600000
                         else None),
       localTZA = (\<lambda>t isUTC. 0),
       unicodeLower = (\<lambda>s. s),
       homedir = ''/home/dev'', platform = linux, APPDATA = None, XDG_DATA_HOME = None,
       XDG_CONFIG_HOME = None,
       gitConfigFile = documentedGitFile ''/home/dev'' None,
       gitConfigSet = (\<lambda>old key v. (case old of None \<Rightarrow> [] | Some t \<Rightarrow> t) @ key @ ''='' @ v @ [CHR 0x0A]) \<rparr>"

definition sampleBackup :: "string \<Rightarrow> string \<Rightarrow> bool \<Rightarrow> BackupInfo" where
  "sampleBackup i ts r =
     \<lparr> b_id = i, b_timestamp = ts, b_type = git_config_global,
       originalPath = ''/home/dev/.gitconfig'',
       backupPath = ''/home/dev/.local/share/GitSwitch/backups/.gitconfig_'' @ i,
       originalHash = ''sha256:[user]'', reason = ''Setting global git config'',
       restored = r \<rparr>"



definition sampleCleanupWorld :: World where
  "sampleCleanupWorld =
     emptyWorld\<lparr>files := [''/home/dev/.local/share/GitSwitch/backups/.gitconfig_b1'' \<mapsto> ''[user]'',
                          ''/home/dev/.local/share/GitSwitch/backups/.gitconfig_b2'' \<mapsto> ''[user]''],
                 backupRegistry := [sampleBackup ''b1'' ''2026-01-01T00:00:00.000Z'' False,
                                    sampleBackup ''b2'' ''2026-01-01T00:00:00.000Z'' True]\<rparr>"


text \<open>
  The cleanup world on a disk that refuses the write of \<^verbatim>\<open>registry.json\<close>.
\<close>

definition sampleFullDiskWorld :: World where
  "sampleFullDiskWorld =
     sampleCleanupWorld\<lparr>ioFails :=
        (\<lambda>operation. operation = OpWrite ''/home/dev/.local/share/GitSwitch/backups/registry.json'')\<rparr>"

text \<open>
  A host in a zone that moves its clocks forward by one hour at
  2026-03-29T01:00:00Z, from one hour ahead of UTC to two hours ahead. The
  local times from 02:00 to 03:00 of that day are skipped; a local time before
  03:00 is read with the offset before the change.
\<close>

definition sampleDstHost :: Host where
  "sampleDstHost =
     sampleHost\<lparr>localTZA :=
        (\<lambda>t isUTC. if isUTC then (if t < 1774746000000 then 3600000 else 7200000)
                    else (if t < 1774746000000 + 7200000 then 3600000 else 7200000)),
       dateValue := (\<lambda>s. if s = ''2026-03-28T12:30:00.000Z'' then Some 1774701000000 else None)\<rparr>"

definition sampleIdentity :: GitIdentity where
  "sampleIdentity = \<lparr> g_email = Some ''dev@example.com'', g_username = Some ''dev'' \<rparr>"

definition sampleConfigWorld :: World where
  "sampleConfigWorld = emptyWorld\<lparr>files := [getGlobalGitConfigPath sampleHost \<mapsto> ''[user]'']\<rparr>"

text \<open>
  The same user with \<^verbatim>\<open>XDG_CONFIG_HOME\<close> set, as desktop sessions set it, and
  the usual \<^verbatim>\<open>~/.gitconfig\<close> on disk.
\<close>

definition sampleXdgHost :: Host where
  "sampleXdgHost =
     sampleHost\<lparr>XDG_CONFIG_HOME := Some ''/home/dev/.config'',
                 gitConfigFile := documentedGitFile ''/home/dev'' (Some ''/home/dev/.config'')\<rparr>"

definition sampleHomeConfigWorld :: World where
  "sampleHomeConfigWorld = emptyWorld\<lparr>files := [''/home/dev/.gitconfig'' \<mapsto> ''[user]'']\<rparr>"

text \<open>
  A linked working tree \<^verbatim>\<open>/home/dev/widgets-fix\<close> of the repository
  \<^verbatim>\<open>/home/dev/widgets\<close>: its \<^verbatim>\<open>.git\<close> is a file that names the git directory,
  and \<^verbatim>\<open>git config --local\<close> there writes the config of the repository.
\<close>

definition sampleWorktreeHost :: Host where
  "sampleWorktreeHost =
     sampleHost\<lparr>gitConfigFile :=
        (\<lambda>scope baseDir exists.
           if scope = ScopeLocal \<and> baseDir = Some ''/home/dev/widgets-fix''
           then ''/home/dev/widgets/.git/config''
           else documentedGitFile ''/home/dev'' None scope baseDir exists)\<rparr>"

definition sampleWorktreeWorld :: World where
  "sampleWorktreeWorld =
     emptyWorld\<lparr>files := [''/home/dev/widgets/.git/config'' \<mapsto> ''[user]'',
                          ''/home/dev/widgets-fix/.git'' \<mapsto>
                             ''gitdir: /home/dev/widgets/.git/worktrees/widgets-fix'']\<rparr>"


section \<open>Properties\<close>

subsection \<open>Lists\<close>

lemma findIndex_SomeD:
  "findIndex P xs = Some i \<Longrightarrow> i < length xs \<and> P (xs ! i) \<and> (\<forall>j<i. \<not> P (xs ! j))"
proof (induction xs arbitrary: i)
  case Nil
  then show ?case by simp
next
  case (Cons x xs)
  show ?case
  proof (cases "P x")
    case True
    with Cons.prems show ?thesis by simp
  next
    case False
    with Cons.prems obtain k where k: "findIndex P xs = Some k" "i = Suc k"
      by auto
    from Cons.IH [OF k(1)] False k(2) show ?thesis
      by (auto simp: less_Suc_eq_0_disj)
  qed
qed

lemma findIndex_None_iff: "findIndex P xs = None \<longleftrightarrow> (\<forall>x\<in>set xs. \<not> P x)"
  by (induction xs) auto

lemma find_findIndex: "find P xs = map_option (\<lambda>i. xs ! i) (findIndex P xs)"
  by (induction xs) (auto simp: option.map_comp comp_def)

subsection \<open>The default profile\<close>

text \<open>
  C10. When profiles are stored and none of them is flagged as default,
  \<^verbatim>\<open>getDefault\<close> returns the first stored profile; it returns \<^verbatim>\<open>undefined\<close>
  exactly when the store is empty.
\<close>

theorem getDefault_falls_back_to_first:
  "(\<forall>p ps. profiles = p # ps \<and> (\<forall>q\<in>set profiles. \<not> isDefault q) \<longrightarrow> getDefault profiles = Some p)
   \<and> (getDefault profiles = None \<longleftrightarrow> profiles = [])"
proof (cases "find isDefault profiles")
  case None
  then have "getDefault profiles = (case profiles of [] \<Rightarrow> None | p # _ \<Rightarrow> Some p)"
    by (simp add: getDefault_def)
  then show ?thesis
    by (simp split: list.splits)
next
  case (Some d)
  then have "d \<in> set profiles" "isDefault d"
    by (auto simp: find_Some_iff)
  with Some show ?thesis
    by (auto simp: getDefault_def)
qed

text \<open>
  An instance of C10: two stored profiles, neither flagged; the first one is
  returned.
\<close>

theorem getDefault_falls_back_to_first_witness:
  "\<not> isDefault (sampleProfile ''p1'' False) \<and> \<not> isDefault (sampleProfile ''p2'' False)
   \<and> getDefault [sampleProfile ''p1'' False, sampleProfile ''p2'' False]
       = Some (sampleProfile ''p1'' False)
   \<and> getDefault [sampleProfile ''p1'' False, sampleProfile ''p2'' False] \<noteq> None"
  using getDefault_falls_back_to_first [of "[sampleProfile ''p1'' False, sampleProfile ''p2'' False]"]
  by (simp add: sampleProfile_def)

text \<open>
  C1. The claim is that every run of create, update, delete and setDefault
  leaves exactly one default profile in a non-empty store. It fails on this
  run: on the empty store, create a profile (it becomes the default, being the
  first), then update it with \<^verbatim>\<open>isDefault: false\<close>. The store then holds one
  profile and no default.
\<close>

theorem update_can_clear_the_only_default:
  "length (runOps [OpCreate sampleCreateEnv sampleCreateInput] []) = 1
   \<and> defaultCount (runOps [OpCreate sampleCreateEnv sampleCreateInput] []) = 1
   \<and> length (runOps [OpCreate sampleCreateEnv sampleCreateInput,
                     OpUpdate ''2026-01-02T00:00:00.000Z'' sampleUnsetDefault] []) = 1
   \<and> defaultCount (runOps [OpCreate sampleCreateEnv sampleCreateInput,
                           OpUpdate ''2026-01-02T00:00:00.000Z'' sampleUnsetDefault] []) = 0"
  by (simp add: runOps_def create_def update_def saveProfile_def getProfile_def truthyBool_def
      truthyStr_def orElse_def defaultCount_def Let_def sampleCreateEnv_def sampleCreateInput_def
      sampleUnsetDefault_def)

subsection \<open>Unbinding a repository\<close>

text \<open>
  C9. The unbind handler answers \<^verbatim>\<open>{ unbound: true }\<close>, changes no file (so
  the repository's \<^verbatim>\<open>.git/config\<close>, with its \<^verbatim>\<open>user.email\<close> and
  \<^verbatim>\<open>user.name\<close>, is as before) and performs no file or git operation at all;
  in the record store the record of the path loses its \<^verbatim>\<open>boundProfileId\<close> and
  keeps every other field, and every other record is as before.
\<close>

theorem unbind_clears_only_the_binding:
  assumes "repoUnbind repoPath w = (res, w')"
  shows "res = Success True
       \<and> files w' = files w \<and> trace w' = trace w
       \<and> backupRegistry w' = backupRegistry w \<and> registryJson w' = registryJson w
       \<and> length (repositories w') = length (repositories w)
       \<and> (\<forall>i < length (repositories w).
             repositories w' ! i = repositories w ! i
           \<or> (path (repositories w ! i) = repoPath
              \<and> repositories w' ! i = (repositories w ! i)\<lparr>boundProfileId := None\<rparr>))
       \<and> (\<forall>r. getRepository repoPath (repositories w) = Some r \<longrightarrow>
             getRepository repoPath (repositories w') = Some (r\<lparr>boundProfileId := None\<rparr>))
       \<and> (getRepository repoPath (repositories w) = None \<longrightarrow> w' = w)"
proof (cases "findIndex (\<lambda>r. path r = repoPath) (repositories w)")
  case None
  then have "getRepository repoPath (repositories w) = None"
    by (simp add: getRepository_def find_findIndex)
  with assms show ?thesis
    by (auto simp: repoUnbind_def)
next
  case (Some k)
  define rs where "rs = repositories w"
  define r where "r = rs ! k"
  from findIndex_SomeD [OF Some] have k: "k < length rs" "path r = repoPath"
    "\<forall>j<k. path (rs ! j) \<noteq> repoPath"
    by (simp_all add: rs_def r_def)
  have found: "getRepository repoPath rs = Some r"
    using Some by (simp add: getRepository_def find_findIndex rs_def r_def)
  have saved: "saveRepository (r\<lparr>boundProfileId := None\<rparr>) rs = rs[k := r\<lparr>boundProfileId := None\<rparr>]"
    using Some k(2) by (simp add: saveRepository_def rs_def)
  have w': "w' = w\<lparr>repositories := rs[k := r\<lparr>boundProfileId := None\<rparr>]\<rparr>" and res: "res = Success True"
    using assms found saved by (simp_all add: repoUnbind_def rs_def)
  have idx: "findIndex (\<lambda>x. path x = repoPath) (rs[k := r\<lparr>boundProfileId := None\<rparr>]) = Some k"
    using Some k(2) unfolding rs_def [symmetric]
  proof (induction rs arbitrary: k)
    case Nil
    then show ?case by simp
  next
    case (Cons a rs)
    then show ?case
      by (cases k) (auto split: if_splits)
  qed
  have after: "getRepository repoPath (repositories w') = Some (r\<lparr>boundProfileId := None\<rparr>)"
    using idx k(1) by (simp add: w' getRepository_def find_findIndex)
  have each: "\<forall>i < length rs.
      repositories w' ! i = rs ! i
    \<or> (path (rs ! i) = repoPath \<and> repositories w' ! i = (rs ! i)\<lparr>boundProfileId := None\<rparr>)"
    using k by (auto simp: w' r_def nth_list_update)
  show ?thesis
    using res found after each by (simp add: w' rs_def [symmetric])
qed

text \<open>
  An instance of C9: a store with one bound repository whose
  \<^verbatim>\<open>.git/config\<close> is on disk.
\<close>

theorem unbind_clears_only_the_binding_witness:
  "getRepository ''/home/dev/widgets''
      (repositories (emptyWorld\<lparr>files := [''/home/dev/widgets/.git/config'' \<mapsto> ''[user]''],
                                repositories := [sampleRepository]\<rparr>)) = Some sampleRepository
   \<and> getRepository ''/home/dev/widgets''
        (repositories (snd (repoUnbind ''/home/dev/widgets''
           (emptyWorld\<lparr>files := [''/home/dev/widgets/.git/config'' \<mapsto> ''[user]''],
                        repositories := [sampleRepository]\<rparr>))))
       = Some (sampleRepository\<lparr>boundProfileId := None\<rparr>)
   \<and> files (snd (repoUnbind ''/home/dev/widgets''
           (emptyWorld\<lparr>files := [''/home/dev/widgets/.git/config'' \<mapsto> ''[user]''],
                        repositories := [sampleRepository]\<rparr>))) ''/home/dev/widgets/.git/config''
       = Some ''[user]''"
  using unbind_clears_only_the_binding
    [of "''/home/dev/widgets''"
        "emptyWorld\<lparr>files := [''/home/dev/widgets/.git/config'' \<mapsto> ''[user]''],
                     repositories := [sampleRepository]\<rparr>"
        "fst (repoUnbind ''/home/dev/widgets''
           (emptyWorld\<lparr>files := [''/home/dev/widgets/.git/config'' \<mapsto> ''[user]''],
                        repositories := [sampleRepository]\<rparr>))"
        "snd (repoUnbind ''/home/dev/widgets''
           (emptyWorld\<lparr>files := [''/home/dev/widgets/.git/config'' \<mapsto> ''[user]''],
                        repositories := [sampleRepository]\<rparr>))"]
  by (simp add: getRepository_def sampleRepository_def emptyWorld_def)

subsection \<open>The remote URL parser\<close>

lemma startsWith_includesStr: "startsWith u l \<Longrightarrow> includesStr u l"
  by (cases u) (auto elim: startsWith.elims)

lemma startsWith_append: "startsWith u (a @ b) \<Longrightarrow> startsWith u a"
  by (induction u a rule: startsWith.induct) auto

lemma search_Lit_None: "\<not> includesStr u l \<Longrightarrow> search (Lit l # r) u = None"
proof (induction u)
  case Nil
  then show ?case by (cases l) auto
next
  case (Cons c u)
  then show ?case by auto
qed

lemma firstSome_SomeD: "firstSome xs = Some y \<Longrightarrow> Some y \<in> set xs"
  by (induction xs rule: firstSome.induct) auto

text \<open>A match yields one capture for each group of the pattern.\<close>

lemma matchHere_captures:
  "matchHere r s = Some m \<Longrightarrow>
     length m = length (filter (\<lambda>x. case x of PlusGreedy P \<Rightarrow> True | PlusLazy P \<Rightarrow> True | _ \<Rightarrow> False) r)"
proof (induction r s arbitrary: m rule: matchHere.induct)
  case (1 s)
  then show ?case by simp
next
  case (2 l r s)
  then show ?case by (auto split: if_splits)
next
  case (3 l r s)
  then show ?case by (auto split: if_splits option.splits)
next
  case (4 P r s)
  from "4.prems" have "Some m \<in> (\<lambda>pr. map_option (\<lambda>m. fst pr # m) (matchHere r (snd pr))) ` set (runs P s)"
    by (auto dest!: firstSome_SomeD)
  then obtain pr where pr: "pr \<in> set (runs P s)"
      "Some m = map_option (\<lambda>m. fst pr # m) (matchHere r (snd pr))"
    by blast
  then obtain m' where m': "matchHere r (snd pr) = Some m'" "m = fst pr # m'"
    by (cases "matchHere r (snd pr)") auto
  from "4.IH" [of pr m'] pr(1) m' show ?case by simp
next
  case (5 P r s)
  from "5.prems" have "Some m \<in> (\<lambda>pr. map_option (\<lambda>m. fst pr # m) (matchHere r (snd pr))) ` set (runs P s)"
    by (auto dest!: firstSome_SomeD)
  then obtain pr where pr: "pr \<in> set (runs P s)"
      "Some m = map_option (\<lambda>m. fst pr # m) (matchHere r (snd pr))"
    by blast
  then obtain m' where m': "matchHere r (snd pr) = Some m'" "m = fst pr # m'"
    by (cases "matchHere r (snd pr)") auto
  from "5.IH" [of pr m'] pr(1) m' show ?case by simp
next
  case (6 r s)
  then show ?case by (auto split: if_splits)
qed

lemma search_captures:
  "search r s = Some m \<Longrightarrow>
     length m = length (filter (\<lambda>x. case x of PlusGreedy P \<Rightarrow> True | PlusLazy P \<Rightarrow> True | _ \<Rightarrow> False) r)"
  by (induction s) (auto split: option.splits dest: matchHere_captures)

lemma three_captures:
  assumes "search sshPattern u = Some m \<or> search httpsPattern u = Some m"
  shows "\<exists>h o' r. m = [h, o', r]"
proof -
  have "length m = 3"
    using assms by (auto dest!: search_captures simp: sshPattern_def httpsPattern_def)
  then show ?thesis
    by (cases m; simp; cases "tl m"; simp; cases "tl (tl m)"; simp)
qed

lemma parseRemoteUrl_github_ssh:
  "parseRemoteUrl ''git@github.com:acme/widgets.git'' =
     \<lparr>pr_type = ssh, pr_provider = Some github, pr_owner = Some ''acme'', pr_repo = Some ''widgets''\<rparr>"
  by (simp add: parseRemoteUrl_def sshPattern_def httpsPattern_def providerOfHost_def dot_def noneOf_def)

lemma parseRemoteUrl_gitlab_https:
  "parseRemoteUrl ''https://gitlab.com/acme/widgets'' =
     \<lparr>pr_type = https, pr_provider = Some gitlab, pr_owner = Some ''acme'', pr_repo = Some ''widgets''\<rparr>"
  by (simp add: parseRemoteUrl_def sshPattern_def httpsPattern_def providerOfHost_def dot_def noneOf_def)

text \<open>
  C7, as amended. The parser maps \<^verbatim>\<open>git@github.com:acme/widgets.git\<close> to
  ssh, github, acme, widgets and \<^verbatim>\<open>https://gitlab.com/acme/widgets\<close> to
  https, gitlab, acme, widgets. For every URL:
  \<^item> the type is ssh when the URL contains \<^verbatim>\<open>@\<close> and does not start with
    \<^verbatim>\<open>https://\<close>, and https otherwise, whatever else the URL is;
  \<^item> a URL that matches neither pattern (an unrecognised scheme) gets no
    provider, owner or repo; a URL that contains neither \<^verbatim>\<open>git@\<close> nor
    \<^verbatim>\<open>http\<close> is such a URL;
  \<^item> a URL that matches a pattern (the SSH pattern first) has three captures,
    host, owner and repo; owner and repo are the second and third, and the
    provider is the first of github, gitlab, bitbucket, azure whose name the
    host contains (\<^verbatim>\<open>visualstudio\<close> counting for azure), and none when the host
    contains none of them (an unrecognised host).
\<close>

theorem parseRemoteUrl_classification:
  "parseRemoteUrl ''git@github.com:acme/widgets.git'' =
     \<lparr>pr_type = ssh, pr_provider = Some github, pr_owner = Some ''acme'', pr_repo = Some ''widgets''\<rparr>
   \<and> parseRemoteUrl ''https://gitlab.com/acme/widgets'' =
     \<lparr>pr_type = https, pr_provider = Some gitlab, pr_owner = Some ''acme'', pr_repo = Some ''widgets''\<rparr>
   \<and> pr_type (parseRemoteUrl u) =
       (if includesStr u ''@'' \<and> \<not> startsWith u ''https://'' then ssh else https)
   \<and> (search sshPattern u = None \<and> search httpsPattern u = None \<longrightarrow>
        pr_provider (parseRemoteUrl u) = None \<and> pr_owner (parseRemoteUrl u) = None
        \<and> pr_repo (parseRemoteUrl u) = None)
   \<and> (\<not> includesStr u ''git@'' \<and> \<not> includesStr u ''http'' \<longrightarrow>
        search sshPattern u = None \<and> search httpsPattern u = None)
   \<and> (\<forall>m. search sshPattern u = Some m
            \<or> (search sshPattern u = None \<and> search httpsPattern u = Some m) \<longrightarrow>
          (\<exists>h o' r. m = [h, o', r]
             \<and> pr_owner (parseRemoteUrl u) = Some o' \<and> pr_repo (parseRemoteUrl u) = Some r
             \<and> pr_provider (parseRemoteUrl u) =
                 (if includesStr h ''github'' then Some github
                  else if includesStr h ''gitlab'' then Some gitlab
                  else if includesStr h ''bitbucket'' then Some bitbucket
                  else if includesStr h ''azure'' \<or> includesStr h ''visualstudio'' then Some azure
                  else None)))"
proof -
  have type: "pr_type (parseRemoteUrl u) =
       (if includesStr u ''@'' \<and> \<not> startsWith u ''https://'' then ssh else https)"
    by (simp add: parseRemoteUrl_def Let_def split: option.splits list.splits)
  have unmatched: "pr_provider (parseRemoteUrl u) = None \<and> pr_owner (parseRemoteUrl u) = None
        \<and> pr_repo (parseRemoteUrl u) = None"
    if "search sshPattern u = None" "search httpsPattern u = None"
    using that by (simp add: parseRemoteUrl_def)
  have plain: "search sshPattern u = None \<and> search httpsPattern u = None"
    if a: "\<not> includesStr u ''git@''" and b: "\<not> includesStr u ''http''"
    using a b by (simp add: sshPattern_def httpsPattern_def search_Lit_None)
  have matched: "\<exists>h o' r. m = [h, o', r]
             \<and> pr_owner (parseRemoteUrl u) = Some o' \<and> pr_repo (parseRemoteUrl u) = Some r
             \<and> pr_provider (parseRemoteUrl u) =
                 (if includesStr h ''github'' then Some github
                  else if includesStr h ''gitlab'' then Some gitlab
                  else if includesStr h ''bitbucket'' then Some bitbucket
                  else if includesStr h ''azure'' \<or> includesStr h ''visualstudio'' then Some azure
                  else None)"
    if m: "search sshPattern u = Some m \<or> (search sshPattern u = None \<and> search httpsPattern u = Some m)"
    for m
  proof -
    from m have "search sshPattern u = Some m \<or> search httpsPattern u = Some m" by blast
    from three_captures [OF this] obtain h o' r where hor: "m = [h, o', r]" by blast
    have "parseRemoteUrl u =
        \<lparr>pr_type = (if includesStr u ''@'' \<and> \<not> startsWith u ''https://'' then ssh else https),
         pr_provider = providerOfHost h, pr_owner = Some o', pr_repo = Some r\<rparr>"
      using m hor by (auto simp: parseRemoteUrl_def)
    then show ?thesis
      using hor by (simp add: providerOfHost_def)
  qed
  show ?thesis
    using parseRemoteUrl_github_ssh parseRemoteUrl_gitlab_https type unmatched plain matched
    by blast
qed

text \<open>
  Two instances of C7 as amended. An \<^verbatim>\<open>ssh://\<close> URL contains neither
  \<^verbatim>\<open>git@\<close> nor \<^verbatim>\<open>http\<close>: it matches neither pattern, gets no provider and
  the type ssh. \<^verbatim>\<open>git@example.com:acme/widgets.git\<close> matches the SSH pattern
  with a host that names no known provider: owner and repo are extracted and
  there is no provider.
\<close>

theorem parseRemoteUrl_classification_witness:
  "\<not> includesStr ''ssh://user@example.com/acme/widgets.git'' ''git@''
   \<and> \<not> includesStr ''ssh://user@example.com/acme/widgets.git'' ''http''
   \<and> search sshPattern ''ssh://user@example.com/acme/widgets.git'' = None
   \<and> search httpsPattern ''ssh://user@example.com/acme/widgets.git'' = None
   \<and> pr_provider (parseRemoteUrl ''ssh://user@example.com/acme/widgets.git'') = None
   \<and> pr_type (parseRemoteUrl ''ssh://user@example.com/acme/widgets.git'') = ssh
   \<and> search sshPattern ''git@example.com:acme/widgets.git'' = Some [''example.com'', ''acme'', ''widgets'']
   \<and> pr_provider (parseRemoteUrl ''git@example.com:acme/widgets.git'') = None
   \<and> pr_owner (parseRemoteUrl ''git@example.com:acme/widgets.git'') = Some ''acme''
   \<and> pr_repo (parseRemoteUrl ''git@example.com:acme/widgets.git'') = Some ''widgets''
   \<and> pr_type (parseRemoteUrl ''git@example.com:acme/widgets.git'') = ssh"
proof -
  have s: "search sshPattern ''git@example.com:acme/widgets.git'' = Some [''example.com'', ''acme'', ''widgets'']"
    by (simp add: sshPattern_def dot_def noneOf_def)
  have n: "\<not> includesStr ''ssh://user@example.com/acme/widgets.git'' ''git@''"
      "\<not> includesStr ''ssh://user@example.com/acme/widgets.git'' ''http''"
    by simp_all
  show ?thesis
    using parseRemoteUrl_classification [of "''ssh://user@example.com/acme/widgets.git''"]
      parseRemoteUrl_classification [of "''git@example.com:acme/widgets.git''"] s n
    by simp
qed

text \<open>
  C7 as stated fails: the claim gives every URL of an unrecognised scheme or
  host the type https. \<^verbatim>\<open>ssh://user@example.com/acme/widgets.git\<close> matches
  neither pattern and gets no provider, yet its type is ssh.
\<close>

theorem parseRemoteUrl_unrecognised_not_https:
  "search sshPattern ''ssh://user@example.com/acme/widgets.git'' = None
   \<and> search httpsPattern ''ssh://user@example.com/acme/widgets.git'' = None
   \<and> pr_provider (parseRemoteUrl ''ssh://user@example.com/acme/widgets.git'') = None
   \<and> pr_type (parseRemoteUrl ''ssh://user@example.com/acme/widgets.git'') \<noteq> https"
  by (simp add: parseRemoteUrl_def sshPattern_def httpsPattern_def providerOfHost_def dot_def noneOf_def)

text \<open>
  The dot of the patterns stops at a line separator: with U+2028 inside the
  repository part no pattern matches, and the URL gets no owner.
\<close>

lemma parseRemoteUrl_line_separator:
  "parseRemoteUrl (''git@github.com:acme/wid'' @ [CHR 0xE2, CHR 0x80, CHR 0xA8] @ ''gets'') =
     \<lparr>pr_type = ssh, pr_provider = None, pr_owner = None, pr_repo = None\<rparr>"
  by (simp add: parseRemoteUrl_def sshPattern_def httpsPattern_def providerOfHost_def dot_def noneOf_def)

subsection \<open>Sanitising the details of an audit entry\<close>

lemma isSensitiveKey_ascii:
  "list_all isAscii key \<Longrightarrow>
     isSensitiveKey host key =
       (includesStr (map lowerChar key) ''password'' \<or> includesStr (map lowerChar key) ''token'' \<or>
        includesStr (map lowerChar key) ''secret'' \<or> includesStr (map lowerChar key) ''private'')"
  by (simp add: isSensitiveKey_def toLowerCase_def Let_def)

lemma map_of_sanitizeDetails:
  "k \<noteq> ''__proto__'' \<Longrightarrow>
     map_of (sanitizeDetails host d) k =
       map_option (\<lambda>v. if isSensitiveKey host k then JStr ''[REDACTED]'' else sanitizeValue host v)
         (map_of d k)"
  by (induction host d rule: sanitizeDetails.induct) (auto simp: sanitizeValue_def split: json.splits)

lemma keys_sanitizeDetails:
  "map fst (sanitizeDetails host d) = filter (\<lambda>k. k \<noteq> ''__proto__'') (map fst d)"
  by (induction host d rule: sanitizeDetails.induct) (auto split: json.splits)

lemma valueAt_sanitizeValue:
  "\<forall>k\<in>set ks. k \<noteq> ''__proto__'' \<and> \<not> isSensitiveKey host k \<Longrightarrow>
     valueAt (sanitizeValue host v) ks = map_option (sanitizeValue host) (valueAt v ks)"
proof (induction ks arbitrary: v)
  case Nil
  then show ?case by simp
next
  case (Cons k ks)
  show ?case
  proof (cases v)
    case (JObj d)
    show ?thesis
    proof (cases "map_of d k")
      case None
      then show ?thesis
        using Cons.prems by (simp add: JObj sanitizeValue_def map_of_sanitizeDetails)
    next
      case (Some x)
      have "valueAt (sanitizeValue host x) ks = map_option (sanitizeValue host) (valueAt x ks)"
        using Cons.IH Cons.prems by simp
      then show ?thesis
        using Cons.prems Some
        by (simp add: JObj sanitizeValue_def [of host "JObj d"] map_of_sanitizeDetails)
    qed
  qed (simp_all add: sanitizeValue_def)
qed

lemma valueAt_append:
  "valueAt v (ks @ [k]) = (case valueAt v ks of Some (JObj d) \<Rightarrow> map_of d k | _ \<Rightarrow> None)"
proof (induction ks arbitrary: v)
  case Nil
  then show ?case by (cases v) (auto split: option.splits)
next
  case (Cons a ks)
  then show ?case by (cases v) (auto split: option.splits)
qed

text \<open>
  What sanitising does do. It keeps the keys of the details map and their
  order, the key \<^verbatim>\<open>__proto__\<close> apart, which it drops. Along a path of keys
  through nested objects, none of them secret-like or \<^verbatim>\<open>__proto__\<close>, the
  value found after sanitising is the value found before, itself sanitised if it
  is an object and unchanged otherwise: a string, a number, \<^verbatim>\<open>null\<close> or an
  array is copied as it is, whatever the array holds. A secret-like key at the
  end of such a path has the value \<^verbatim>\<open>[REDACTED]\<close>.
\<close>

lemma sanitizeDetails_along_object_paths:
  "map fst (sanitizeDetails host d) = filter (\<lambda>k. k \<noteq> ''__proto__'') (map fst d)
   \<and> ((\<forall>k\<in>set ks. k \<noteq> ''__proto__'' \<and> \<not> isSensitiveKey host k) \<longrightarrow>
        valueAt (JObj (sanitizeDetails host d)) ks
          = map_option (sanitizeValue host) (valueAt (JObj d) ks))
   \<and> ((\<forall>k\<in>set ks. k \<noteq> ''__proto__'' \<and> \<not> isSensitiveKey host k)
        \<and> valueAt (JObj d) ks = Some v \<and> (\<forall>e. v \<noteq> JObj e) \<longrightarrow>
        valueAt (JObj (sanitizeDetails host d)) ks = Some v)
   \<and> ((\<forall>k\<in>set ks. k \<noteq> ''__proto__'' \<and> \<not> isSensitiveKey host k) \<and> isSensitiveKey host key
        \<and> key \<noteq> ''__proto__'' \<and> valueAt (JObj d) (ks @ [key]) \<noteq> None \<longrightarrow>
        valueAt (JObj (sanitizeDetails host d)) (ks @ [key]) = Some (JStr ''[REDACTED]''))"
proof -
  have obj: "JObj (sanitizeDetails host d) = sanitizeValue host (JObj d)"
    by (simp add: sanitizeValue_def)
  have general: "valueAt (JObj (sanitizeDetails host d)) ks
      = map_option (sanitizeValue host) (valueAt (JObj d) ks)"
    if "\<forall>k\<in>set ks. k \<noteq> ''__proto__'' \<and> \<not> isSensitiveKey host k"
    using that by (simp only: obj valueAt_sanitizeValue)
  have leaf: "valueAt (JObj (sanitizeDetails host d)) ks = Some v"
    if "\<forall>k\<in>set ks. k \<noteq> ''__proto__'' \<and> \<not> isSensitiveKey host k"
      "valueAt (JObj d) ks = Some v" "\<forall>e. v \<noteq> JObj e"
    using general [OF that(1)] that(2,3) by (cases v) (simp_all add: sanitizeValue_def)
  have redacted: "valueAt (JObj (sanitizeDetails host d)) (ks @ [key]) = Some (JStr ''[REDACTED]'')"
    if ns: "\<forall>k\<in>set ks. k \<noteq> ''__proto__'' \<and> \<not> isSensitiveKey host k"
      and s: "isSensitiveKey host key" and np: "key \<noteq> ''__proto__''"
      and ex: "valueAt (JObj d) (ks @ [key]) \<noteq> None"
  proof -
    from ex obtain e where e: "valueAt (JObj d) ks = Some (JObj e)" and m: "map_of e key \<noteq> None"
      by (auto simp: valueAt_append split: option.splits json.splits)
    from general [OF ns] e
    have "valueAt (JObj (sanitizeDetails host d)) ks = Some (JObj (sanitizeDetails host e))"
      by (simp add: sanitizeValue_def)
    then show ?thesis
      using m s np by (auto simp: valueAt_append map_of_sanitizeDetails)
  qed
  show ?thesis
    using keys_sanitizeDetails general leaf redacted by blast
qed

text \<open>
  For instance \<^verbatim>\<open>{user: {apiToken: 'abc', name: 'dev'}, tags: ['x']}\<close>: the
  token under \<^verbatim>\<open>user\<close> is redacted, the name and the array are kept.
\<close>

lemma sanitizeDetails_example:
  "sanitizeDetails host sampleDetails =
     [(''user'', JObj [(''apiToken'', JStr ''[REDACTED]''), (''name'', JStr ''dev'')]),
      (''tags'', JArr [JStr ''x''])]"
  by (simp add: sampleDetails_def isSensitiveKey_ascii isAscii_def lowerChar_def)

text \<open>
  A key that is not ASCII is lower-cased by the engine's tables: when these
  turn the key into one that contains \<^verbatim>\<open>token\<close> (as they do for
  \<^verbatim>\<open>to\<close>, U+212A KELVIN SIGN, \<^verbatim>\<open>en\<close>), the key is secret-like.
\<close>

lemma isSensitiveKey_kelvin:
  "unicodeLower host (''to'' @ [CHR 0xE2, CHR 0x84, CHR 0xAA] @ ''en'') = ''token'' \<Longrightarrow>
     isSensitiveKey host (''to'' @ [CHR 0xE2, CHR 0x84, CHR 0xAA] @ ''en'')"
  by (simp add: isSensitiveKey_def toLowerCase_def isAscii_def)

text \<open>An entry under the key \<^verbatim>\<open>__proto__\<close> is not in the result.\<close>

lemma sanitizeDetails_drops_proto:
  "sanitizeDetails host [(''__proto__'', JStr ''x''), (''name'', JStr ''dev'')] = [(''name'', JStr ''dev'')]"
  by (simp add: isSensitiveKey_ascii isAscii_def lowerChar_def)

lemma log_ok:
  "\<forall>operation. \<not> ioFails w operation \<Longrightarrow>
     log host env cat act dets options w =
       (Inr (buildEntry host env cat act dets options),
        w\<lparr>files := (files w)(getAuditLogPath host (now env) \<mapsto>
             (case files w (getAuditLogPath host (now env)) of None \<Rightarrow> [] | Some old \<Rightarrow> old) @
             (case JSON_stringify
                     (JObj (entryPayload (buildEntry host env cat act dets options) @
                            [(''checksum'', JStr (checksum (buildEntry host env cat act dets options)))]))
                     None of
                None \<Rightarrow> [] | Some t \<Rightarrow> t) @ [CHR 0x0A]),
          trace := trace w @ [FileAppended (getAuditLogPath host (now env))]\<rparr>)"
  by (simp add: log_def appendToLog_def ensureDir_def appendFile_def JSON_stringify_def Let_def
      split: option.splits)

lemma startsWith_self: "startsWith (sub @ post) sub"
  by (induction sub) auto

lemma includesStr_append_left: "includesStr b sub \<Longrightarrow> includesStr (a @ b) sub"
  by (induction a) auto

lemma startsWith_append_right: "startsWith a sub \<Longrightarrow> startsWith (a @ b) sub"
  by (induction a sub rule: startsWith.induct) auto

lemma includesStr_append_right: "includesStr a sub \<Longrightarrow> includesStr (a @ b) sub"
proof (induction a)
  case Nil
  then show ?case by (cases b) auto
next
  case (Cons c a)
  then show ?case
    using startsWith_append_right [of "c # a" sub b] by auto
qed

lemma includesStr_joinWith:
  "x \<in> set xs \<Longrightarrow> includesStr x sub \<Longrightarrow> includesStr (joinWith sep xs) sub"
proof (induction sep xs rule: joinWith.induct)
  case (1 sep)
  then show ?case by simp
next
  case (2 sep x)
  then show ?case by simp
next
  case (3 sep x y ys)
  then show ?case
    by (auto intro: includesStr_append_right includesStr_append_left)
qed

text \<open>The text of an object, written without a replacer, contains each of its members.\<close>

lemma serialize_object_member:
  assumes "map_of es k = Some v" and "serialize None v = Some t"
  shows "\<exists>text. serialize None (JObj es) = Some text
           \<and> includesStr text (quoteJSONString k @ '':'' @ t)"
proof -
  define f where "f = (\<lambda>k. case map_of (map (\<lambda>e. (fst e, serialize None (snd e))) es) k of
                            Some (Some t) \<Rightarrow> Some (quoteJSONString k @ '':'' @ t)
                          | _ \<Rightarrow> None)"
  have m: "map_of (map (\<lambda>e. (fst e, serialize None (snd e))) es) k = Some (Some t)"
    using assms by (induction es) (auto split: if_splits)
  then have fk: "f k = Some (quoteJSONString k @ '':'' @ t)"
    by (simp add: f_def)
  have "k \<in> set (map fst es)"
    using assms(1) by (metis map_of_eq_None_iff option.distinct(1) set_map)
  then have mem: "quoteJSONString k @ '':'' @ t \<in> set (List.map_filter f (map fst es))"
    using fk by (force simp: List.map_filter_def image_iff)
  have "includesStr (quoteJSONString k @ '':'' @ t) (quoteJSONString k @ '':'' @ t)"
    using startsWith_self [of "quoteJSONString k @ '':'' @ t" "[]"]
    by (auto intro: startsWith_includesStr)
  with mem have "includesStr (joinWith '','' (List.map_filter f (map fst es))) (quoteJSONString k @ '':'' @ t)"
    by (rule includesStr_joinWith)
  then have "includesStr (''{'' @ joinWith '','' (List.map_filter f (map fst es)) @ ''}'')
      (quoteJSONString k @ '':'' @ t)"
    by (intro includesStr_append_left includesStr_append_right)
  moreover have "serialize None (JObj es) = Some (''{'' @ joinWith '','' (List.map_filter f (map fst es)) @ ''}'')"
    by (simp add: f_def)
  ultimately show ?thesis by blast
qed

text \<open>
  C6. The claim has every secret-like key redacted, at any depth and inside
  arrays as well, and \<^verbatim>\<open>sanitizeDetails\<close> is documented to remove sensitive
  information from the details. It does not look into arrays: in
  \<^verbatim>\<open>{items: [{token: 'abc'}]}\<close> the key \<^verbatim>\<open>token\<close> is secret-like, yet
  \<^verbatim>\<open>sanitizeDetails\<close> returns the map unchanged, where the redaction at every
  depth replaces the token. So \<^verbatim>\<open>log\<close>, on any host, stores the token in the
  entry it returns, and the line it appends to the audit log file contains
  \<^verbatim>\<open>"details":{"items":[{"token":"abc"}]}\<close>.
\<close>

theorem sanitizeDetails_skips_arrays:
  "isSensitiveKey host ''token''
   \<and> sanitizeDetails host sampleArrayDetails = sampleArrayDetails
   \<and> redactEverywhere host (JObj sampleArrayDetails)
       = JObj [(''items'', JArr [JObj [(''token'', JStr ''[REDACTED]'')]])]
   \<and> JObj (sanitizeDetails host sampleArrayDetails) \<noteq> redactEverywhere host (JObj sampleArrayDetails)
   \<and> (\<exists>entry w' line.
         log host sampleEnv CatSettings ''updated'' sampleArrayDetails noOptions emptyWorld = (Inr entry, w')
         \<and> details entry = [(''items'', JArr [JObj [(''token'', JStr ''abc'')]])]
         \<and> files w' (getAuditLogPath host (now sampleEnv)) = Some line
         \<and> includesStr line
             (quoteJSONString ''details'' @ '':'' @
              ''{'' @ quoteJSONString ''items'' @ '':[{'' @
                quoteJSONString ''token'' @ '':'' @ quoteJSONString ''abc'' @ ''}]}''))"
proof -
  have s: "isSensitiveKey host ''token''"
    by (simp add: isSensitiveKey_ascii isAscii_def lowerChar_def)
  have same: "sanitizeDetails host sampleArrayDetails = sampleArrayDetails"
    by (simp add: sampleArrayDetails_def isSensitiveKey_ascii isAscii_def lowerChar_def)
  have red: "redactEverywhere host (JObj sampleArrayDetails)
       = JObj [(''items'', JArr [JObj [(''token'', JStr ''[REDACTED]'')]])]"
    by (simp add: sampleArrayDetails_def isSensitiveKey_ascii isAscii_def lowerChar_def)
  have ne: "JObj (sanitizeDetails host sampleArrayDetails) \<noteq> redactEverywhere host (JObj sampleArrayDetails)"
    unfolding same red by (simp add: sampleArrayDetails_def)
  define entry where "entry = buildEntry host sampleEnv CatSettings ''updated'' sampleArrayDetails noOptions"
  have d: "details entry = [(''items'', JArr [JObj [(''token'', JStr ''abc'')]])]"
    using same by (simp add: entry_def buildEntry_def Let_def) (simp add: sampleArrayDetails_def)
  define line where "line =
     (case JSON_stringify (JObj (entryPayload entry @ [(''checksum'', JStr (checksum entry))])) None of
        None \<Rightarrow> [] | Some t \<Rightarrow> t) @ [CHR 0x0A]"
  have io: "\<forall>operation. \<not> ioFails emptyWorld operation"
    by (simp add: emptyWorld_def)
  have e: "files emptyWorld (getAuditLogPath host (now sampleEnv)) = None"
    by (simp add: emptyWorld_def)
  have l: "log host sampleEnv CatSettings ''updated'' sampleArrayDetails noOptions emptyWorld =
      (Inr entry,
       emptyWorld\<lparr>files := (files emptyWorld)(getAuditLogPath host (now sampleEnv) \<mapsto> line),
         trace := trace emptyWorld @ [FileAppended (getAuditLogPath host (now sampleEnv))]\<rparr>)"
    unfolding log_ok [OF io] entry_def [symmetric] e line_def by simp
  have dt: "serialize None (JObj (details entry)) =
      Some (''{'' @ quoteJSONString ''items'' @ '':[{'' @ quoteJSONString ''token'' @ '':'' @
            quoteJSONString ''abc'' @ ''}]}'')"
    unfolding d by (simp add: List.map_filter_def)
  have m: "map_of (entryPayload entry @ [(''checksum'', JStr (checksum entry))]) ''details''
      = Some (JObj (details entry))"
    by (simp add: entryPayload_def)
  from serialize_object_member [OF m dt]
  obtain body where t: "serialize None (JObj (entryPayload entry @ [(''checksum'', JStr (checksum entry))]))
        = Some body"
    and inc: "includesStr body
             (quoteJSONString ''details'' @ '':'' @
              ''{'' @ quoteJSONString ''items'' @ '':[{'' @
                quoteJSONString ''token'' @ '':'' @ quoteJSONString ''abc'' @ ''}]}'')"
    by blast
  have "line = body @ [CHR 0x0A]"
    by (simp only: line_def JSON_stringify_def option.map t option.case)
  with inc have inc2: "includesStr line
             (quoteJSONString ''details'' @ '':'' @
              ''{'' @ quoteJSONString ''items'' @ '':[{'' @
                quoteJSONString ''token'' @ '':'' @ quoteJSONString ''abc'' @ ''}]}'')"
    by (simp only: includesStr_append_right)
  have f: "files (emptyWorld\<lparr>files := (files emptyWorld)(getAuditLogPath host (now sampleEnv) \<mapsto> line),
         trace := trace emptyWorld @ [FileAppended (getAuditLogPath host (now sampleEnv))]\<rparr>)
       (getAuditLogPath host (now sampleEnv)) = Some line"
    by simp
  show ?thesis
    using s same red ne l d f inc2 by blast
qed

subsection \<open>The checksum of an audit entry\<close>

lemma verifyEntry_buildEntry: "verifyEntry host (buildEntry host env cat act d opts)"
  by (simp add: verifyEntry_def buildEntry_def entryPayload_def Let_def)

lemma entryPayload_keys:
  "propertyList (sortStrings (map fst (entryPayload e))) = entryKeys"
  by (simp add: entryPayload_def sortStrings_def propertyList_def entryKeys_def)

lemma serialize_unlisted:
  assumes "\<forall>k\<in>set K. map_of d k = None"
  shows "serialize (Some K) (JObj d) = Some ''{}''"
proof -
  have "map_of (map (\<lambda>e. (fst e, serialize (Some K) (snd e))) d) k = None" if "k \<in> set K" for k
    using assms that by (induction d) (auto split: if_splits)
  then have "List.map_filter
          (\<lambda>k. case map_of (map (\<lambda>e. (fst e, serialize (Some K) (snd e))) d) k of
                  Some (Some t) \<Rightarrow> Some (quoteJSONString k @ '':'' @ t)
                | _ \<Rightarrow> None) K = []"
    by (induction K) (auto simp: List.map_filter_def)
  then show ?thesis by simp
qed

text \<open>
  A details map whose keys are none of the eight entry keys is written as
  \<^verbatim>\<open>{}\<close> under the property list, so the checksum does not depend on it.
\<close>

lemma checksum_ignores_details:
  assumes "\<forall>k\<in>set entryKeys. map_of d k = None"
  shows "generateChecksum sha (entryPayload (e\<lparr>details := d\<rparr>))
       = generateChecksum sha (entryPayload (e\<lparr>details := []\<rparr>))"
proof -
  have a: "serialize (Some entryKeys) (JObj d) = Some ''{}''"
    using assms by (rule serialize_unlisted)
  have b: "serialize (Some entryKeys) (JObj []) = Some ''{}''"
    by (rule serialize_unlisted) simp
  have members:
    "map (\<lambda>x. (fst x, serialize (Some entryKeys) (snd x))) (entryPayload (e\<lparr>details := d\<rparr>))
   = map (\<lambda>x. (fst x, serialize (Some entryKeys) (snd x))) (entryPayload (e\<lparr>details := []\<rparr>))"
    by (simp add: entryPayload_def a b del: serialize.simps)
  have "serialize (Some entryKeys) (JObj (entryPayload (e\<lparr>details := d\<rparr>)))
      = serialize (Some entryKeys) (JObj (entryPayload (e\<lparr>details := []\<rparr>)))"
    by (simp only: serialize.simps(7) members option.case)
  then show ?thesis
    by (simp only: generateChecksum_def JSON_stringify_def option.map entryPayload_keys)
qed

lemma verifyEntry_ignores_details:
  assumes "\<forall>k\<in>set entryKeys. map_of d k = None"
  shows "verifyEntry host (e\<lparr>details := d\<rparr>) = verifyEntry host (e\<lparr>details := []\<rparr>)"
  using checksum_ignores_details [OF assms, of "sha256 host" e]
  by (simp add: verifyEntry_def)

text \<open>
  C2. The claim is that the checksum is deterministic and that changing any one
  field of the payload, a field inside the details map included, changes the
  checksum, so that \<^verbatim>\<open>verifyEntry\<close> rejects the changed entry. The first half
  holds: the entry logged for a created profile verifies. The second half
  fails whatever the digest function is: with \<^verbatim>\<open>details.profileId\<close> changed
  from \<^verbatim>\<open>p1\<close> to \<^verbatim>\<open>p2\<close> the entry still verifies.
\<close>

theorem verifyEntry_accepts_changed_details:
  "verifyEntry host (sampleEntry host)
   \<and> details (sampleEntry host) = [(''profileId'', JStr ''p1''), (''label'', JStr ''Work'')]
   \<and> verifyEntry host
        ((sampleEntry host)\<lparr>details := [(''profileId'', JStr ''p2''), (''label'', JStr ''Work'')]\<rparr>)"
proof -
  have ok: "verifyEntry host (sampleEntry host)"
    unfolding sampleEntry_def by (rule verifyEntry_buildEntry)
  have d: "details (sampleEntry host) = [(''profileId'', JStr ''p1''), (''label'', JStr ''Work'')]"
    by (simp add: sampleEntry_def buildEntry_def isSensitiveKey_def toLowerCase_def lowerChar_def
        isAscii_def)
  have "verifyEntry host
          ((sampleEntry host)\<lparr>details := [(''profileId'', JStr ''p1''), (''label'', JStr ''Work'')]\<rparr>)"
    using ok d by (metis AuditLogEntry.surjective AuditLogEntry.update_convs(5))
  then have "verifyEntry host ((sampleEntry host)\<lparr>details := []\<rparr>)"
    by (subst (asm) verifyEntry_ignores_details) (simp_all add: entryKeys_def)
  then have "verifyEntry host
          ((sampleEntry host)\<lparr>details := [(''profileId'', JStr ''p2''), (''label'', JStr ''Work'')]\<rparr>)"
    by (subst verifyEntry_ignores_details) (simp_all add: entryKeys_def)
  with ok d show ?thesis by simp
qed

subsection \<open>Paths of backup files\<close>












lemma registryPath_sampleHost:
  "registryPath sampleHost = ''/home/dev/.local/share/GitSwitch/backups/registry.json''"
  by (simp add: registryPath_def getBackupDir_def getAppDataDir_def sampleHost_def pathJoin_def
      pathNormalize_def Let_def)

subsection \<open>Backing up and restoring\<close>

lemma saveRegistry_ok:
  "\<forall>operation. \<not> ioFails w operation \<Longrightarrow>
     saveRegistry host w =
       Some (w\<lparr>files := (files w)(registryPath host \<mapsto> registryText (backupRegistry w)),
               registryJson := Some (backupRegistry w),
               trace := trace w @ [FileWritten (registryPath host),
                                   RegistrySaved (map b_id (backupRegistry w))]\<rparr>)"
  by (simp add: saveRegistry_def ensureDir_def writeFile_def)












subsection \<open>Retention cleanup\<close>

lemma remove_at_findIndex:
  "distinct (map f xs) \<Longrightarrow> findIndex (\<lambda>x. f x = i) xs = Some k \<Longrightarrow>
     take k xs @ drop (Suc k) xs = filter (\<lambda>x. f x \<noteq> i) xs"
proof (induction xs arbitrary: k)
  case Nil
  then show ?case by simp
next
  case (Cons a xs)
  show ?case
  proof (cases "f a = i")
    case True
    then have k: "k = 0" using Cons.prems(2) by simp
    have "f a \<notin> f ` set xs"
      using Cons.prems(1) by simp
    then have "\<forall>x\<in>set xs. f x \<noteq> i"
      using True by (metis imageI)
    then have "filter (\<lambda>x. f x \<noteq> i) xs = xs"
      by (simp add: filter_id_conv)
    then show ?thesis using True k by simp
  next
    case False
    with Cons.prems(2) obtain j where j: "findIndex (\<lambda>x. f x = i) xs = Some j" "k = Suc j"
      by auto
    from Cons.IH [OF _ j(1)] Cons.prems(1) False j(2) show ?thesis by simp
  qed
qed

lemma deleteBackup_ok:
  assumes "findIndex (\<lambda>b. b_id b = i) (backupRegistry w) = Some k"
    and "\<forall>operation. \<not> ioFails w operation"
  shows "fst (deleteBackup host i w) = True"
    and "backupRegistry (snd (deleteBackup host i w))
           = take k (backupRegistry w) @ drop (Suc k) (backupRegistry w)"
    and "files (snd (deleteBackup host i w)) =
           ((files w)(backupPath (backupRegistry w ! k) := None))
             (registryPath host \<mapsto>
                registryText (take k (backupRegistry w) @ drop (Suc k) (backupRegistry w)))"
  using assms
  by (auto simp: deleteBackup_def pathExists_def unlink_def saveRegistry_def ensureDir_def
      writeFile_def Let_def)

lemma deleteBackup_ioFails: "ioFails (snd (deleteBackup host i w)) = ioFails w"
  by (auto simp: deleteBackup_def pathExists_def unlink_def saveRegistry_def ensureDir_def
      writeFile_def Let_def split: option.splits)

lemma deleteAll_ok:
  assumes "distinct (map b_id (backupRegistry w))" and "distinct ids"
    and "set ids \<subseteq> b_id ` set (backupRegistry w)"
    and "\<forall>operation. \<not> ioFails w operation"
  shows "\<exists>w'. deleteAll host ids n w = (n + length ids, w')
           \<and> backupRegistry w' = filter (\<lambda>b. b_id b \<notin> set ids) (backupRegistry w)
           \<and> (\<forall>p. p \<noteq> registryPath host \<longrightarrow>
                 files w' p =
                   (if \<exists>b\<in>set (backupRegistry w). b_id b \<in> set ids \<and> backupPath b = p
                    then None else files w p))
           \<and> (ids \<noteq> [] \<longrightarrow> files w' (registryPath host) = Some (registryText (backupRegistry w')))
           \<and> ioFails w' = ioFails w"
  using assms
proof (induction ids arbitrary: n w)
  case Nil
  show ?case by (rule exI [of _ w]) simp
next
  case (Cons i ids)
  define reg where "reg = backupRegistry w"
  define rp where "rp = registryPath host"
  have "i \<in> b_id ` set reg" using Cons.prems(3) by (simp add: reg_def)
  then have "findIndex (\<lambda>b. b_id b = i) reg \<noteq> None"
    by (auto simp: findIndex_None_iff)
  then obtain k where k: "findIndex (\<lambda>b. b_id b = i) reg = Some k" by auto
  from findIndex_SomeD [OF k] have klt: "k < length reg" and kid: "b_id (reg ! k) = i" by auto
  define w1 where "w1 = snd (deleteBackup host i w)"
  have d: "deleteBackup host i w = (True, w1)"
    using deleteBackup_ok(1) [OF k [unfolded reg_def] Cons.prems(4), of host]
    by (simp add: w1_def prod_eq_iff)
  have reg1: "backupRegistry w1 = filter (\<lambda>b. b_id b \<noteq> i) reg"
    using deleteBackup_ok(2) [OF k [unfolded reg_def] Cons.prems(4), of host]
      remove_at_findIndex [OF Cons.prems(1) k [unfolded reg_def]]
    by (simp add: w1_def reg_def)
  have f1: "files w1 = ((files w)(backupPath (reg ! k) := None))(rp \<mapsto> registryText (backupRegistry w1))"
    using deleteBackup_ok(2,3) [OF k [unfolded reg_def] Cons.prems(4), of host]
    by (simp add: w1_def reg_def rp_def)
  have io1: "\<forall>operation. \<not> ioFails w1 operation"
    using Cons.prems(4) by (simp add: w1_def deleteBackup_ioFails)
  have dist1: "distinct (map b_id (backupRegistry w1))"
    using Cons.prems(1) by (simp add: reg1 reg_def distinct_map_filter)
  have dids: "distinct ids" and inot: "i \<notin> set ids" using Cons.prems(2) by auto
  have sub1: "set ids \<subseteq> b_id ` set (backupRegistry w1)"
  proof
    fix x assume x: "x \<in> set ids"
    then obtain b where b: "b \<in> set reg" "b_id b = x"
      using Cons.prems(3) by (auto simp: reg_def)
    then have "b_id b \<noteq> i" using x inot by auto
    with b show "x \<in> b_id ` set (backupRegistry w1)"
      by (auto simp: reg1 intro!: image_eqI [of _ _ b])
  qed
  from Cons.IH [OF dist1 dids sub1 io1, of "n + 1"]
  obtain w' where w': "deleteAll host ids (n + 1) w1 = (n + 1 + length ids, w')"
    and r': "backupRegistry w' = filter (\<lambda>b. b_id b \<notin> set ids) (backupRegistry w1)"
    and f': "\<forall>p. p \<noteq> rp \<longrightarrow> files w' p =
                 (if \<exists>b\<in>set (backupRegistry w1). b_id b \<in> set ids \<and> backupPath b = p
                  then None else files w1 p)"
    and g': "ids \<noteq> [] \<longrightarrow> files w' rp = Some (registryText (backupRegistry w'))"
    and i': "ioFails w' = ioFails w1"
    unfolding rp_def by blast
  have res: "deleteAll host (i # ids) n w = (n + length (i # ids), w')"
    using d w' by simp
  have regf: "backupRegistry w' = filter (\<lambda>b. b_id b \<notin> set (i # ids)) (backupRegistry w)"
    by (simp add: r' reg1 reg_def conj_commute)
  have uniq: "\<And>b. b \<in> set reg \<Longrightarrow> b_id b = i \<Longrightarrow> b = reg ! k"
  proof -
    fix b assume b: "b \<in> set reg" "b_id b = i"
    have "inj_on b_id (set reg)"
      using Cons.prems(1) by (simp add: reg_def distinct_map)
    moreover have "reg ! k \<in> set reg" using klt by simp
    ultimately show "b = reg ! k" using b kid by (auto dest: inj_onD)
  qed
  have filesf: "\<forall>p. p \<noteq> rp \<longrightarrow> files w' p =
                 (if \<exists>b\<in>set (backupRegistry w). b_id b \<in> set (i # ids) \<and> backupPath b = p
                  then None else files w p)"
  proof (intro allI impI)
    fix p
    assume prp: "p \<noteq> rp"
    have fw1: "files w1 p = ((files w)(backupPath (reg ! k) := None)) p"
      using prp by (simp add: f1)
    have fw': "files w' p =
                 (if \<exists>b\<in>set (backupRegistry w1). b_id b \<in> set ids \<and> backupPath b = p
                  then None else files w1 p)"
      using f' prp by simp
    show "files w' p =
                 (if \<exists>b\<in>set (backupRegistry w). b_id b \<in> set (i # ids) \<and> backupPath b = p
                  then None else files w p)"
    proof (cases "\<exists>b\<in>set reg. b_id b \<in> set ids \<and> backupPath b = p")
      case True
      then obtain b where b: "b \<in> set reg" "b_id b \<in> set ids" "backupPath b = p" by blast
      then have "b_id b \<noteq> i" using inot by auto
      then have "\<exists>b\<in>set (backupRegistry w1). b_id b \<in> set ids \<and> backupPath b = p"
        using b by (auto simp: reg1)
      then have "files w' p = None" using fw' by simp
      moreover have "\<exists>b\<in>set (backupRegistry w). b_id b \<in> set (i # ids) \<and> backupPath b = p"
        using b by (auto simp: reg_def)
      ultimately show ?thesis by auto
    next
      case False
      then have no1: "\<not> (\<exists>b\<in>set (backupRegistry w1). b_id b \<in> set ids \<and> backupPath b = p)"
        by (auto simp: reg1)
      show ?thesis
      proof (cases "backupPath (reg ! k) = p")
        case True
        have "reg ! k \<in> set reg" using klt by simp
        then have "\<exists>b\<in>set (backupRegistry w). b_id b \<in> set (i # ids) \<and> backupPath b = p"
          using True kid by (auto simp: reg_def)
        moreover have "files w' p = files w1 p" using fw' no1 by auto
        moreover have "files w1 p = None" using True by (simp add: fw1)
        ultimately show ?thesis by auto
      next
        case F2: False
        have "\<not> (\<exists>b\<in>set (backupRegistry w). b_id b \<in> set (i # ids) \<and> backupPath b = p)"
          using False F2 uniq by (auto simp: reg_def)
        moreover have "files w' p = files w1 p" using fw' no1 by auto
        moreover have "files w1 p = files w p" using F2 by (simp add: fw1)
        ultimately show ?thesis by auto
      qed
    qed
  qed
  have regfile: "files w' rp = Some (registryText (backupRegistry w'))"
  proof (cases "ids = []")
    case True
    then have "w' = w1" using w' by simp
    then show ?thesis by (simp add: f1)
  next
    case False
    then show ?thesis using g' by simp
  qed
  have iof: "ioFails w' = ioFails w"
    by (simp add: i' w1_def deleteBackup_ioFails)
  from res regf filesf regfile iof show ?case
    unfolding rp_def by blast
qed

text \<open>
  When the save of the registry fails, \<^verbatim>\<open>deleteBackup\<close> answers \<^verbatim>\<open>false\<close> with
  the backup file already deleted and the record already out of the registry.
\<close>

lemma deleteBackup_save_fails:
  assumes "findIndex (\<lambda>b. b_id b = i) (backupRegistry w) = Some k"
    and "bp = backupPath (backupRegistry w ! k)"
    and "files w bp \<noteq> None"
    and "\<not> ioFails w (OpUnlink bp)"
    and "ioFails w (OpWrite (registryPath host))"
  shows "deleteBackup host i w =
     (False, w\<lparr>files := (files w)(bp := None),
               trace := trace w @ [FileUnlinked bp],
               backupRegistry := take k (backupRegistry w) @ drop (Suc k) (backupRegistry w)\<rparr>)"
  using assms(1,3,4,5) unfolding assms(2)
  by (auto simp: deleteBackup_def pathExists_def unlink_def saveRegistry_def ensureDir_def
      writeFile_def Let_def split: option.splits)

text \<open>
  C8, as amended. Let the backup identifiers of the registry be pairwise
  distinct and let no file operation fail. The cutoff is the instant with the
  same local time of day \<^verbatim>\<open>retentionDays\<close> calendar days before now: local
  now minus \<^verbatim>\<open>retentionDays\<close> times 86400000 ms, taken back to UTC with the
  zone offset of that local time; it is an invalid date outside the range of
  dates. A backup is older than the cutoff when the cutoff and the backup's
  timestamp are valid dates and the timestamp is before the cutoff. Then
  \<^verbatim>\<open>cleanupOldBackups(retentionDays)\<close> removes from the registry exactly the
  backups that are older than the cutoff and not marked restored, keeping the
  others in their order; every backup marked restored stays, whatever its age;
  the backup files of the removed ones are deleted and no other file changes,
  but \<^verbatim>\<open>registry.json\<close>, which holds the text of the new registry as soon as
  one backup is removed; the number returned is the number of backups removed.
\<close>

theorem cleanupOldBackups_exact:
  assumes "distinct (map b_id (backupRegistry w))"
    and "\<forall>operation. \<not> ioFails w operation"
    and lt: "localNow = nowMs + localTZA host nowMs True"
    and cut: "cutoff = localNow - retentionDays * 86400000
                       - localTZA host (localNow - retentionDays * 86400000) False"
    and old: "older = (\<lambda>b. abs cutoff \<le> 8640000000000000
                           \<and> (case dateValue host (b_timestamp b) of
                                 None \<Rightarrow> False
                               | Some t \<Rightarrow> t < cutoff))"
  shows "\<exists>w'. cleanupOldBackups host nowMs retentionDays w =
           (length (filter (\<lambda>b. older b \<and> \<not> restored b) (backupRegistry w)), w')
         \<and> backupRegistry w' = filter (\<lambda>b. \<not> (older b \<and> \<not> restored b)) (backupRegistry w)
         \<and> (\<forall>b\<in>set (backupRegistry w). restored b \<longrightarrow> b \<in> set (backupRegistry w'))
         \<and> (\<forall>p. p \<noteq> registryPath host \<longrightarrow>
               files w' p =
                 (if \<exists>b\<in>set (backupRegistry w). older b \<and> \<not> restored b \<and> backupPath b = p
                  then None else files w p))
         \<and> ((\<exists>b\<in>set (backupRegistry w). older b \<and> \<not> restored b) \<longrightarrow>
               files w' (registryPath host) = Some (registryText (backupRegistry w')))"
proof -
  define reg where "reg = backupRegistry w"
  define ex where "ex = isExpired host (cutoffDate host nowMs retentionDays)"
  have exdef: "\<And>b. ex b = (older b \<and> \<not> restored b)"
    by (auto simp: ex_def isExpired_def cutoffDate_def timeClip_def msPerDay_def Let_def lt cut old
        split: option.splits)
  define ids where "ids = map b_id (filter ex reg)"
  have inj: "inj_on b_id (set reg)"
    using assms(1) by (simp add: reg_def distinct_map)
  have dids: "distinct ids"
    using assms(1) by (simp add: ids_def reg_def distinct_map_filter)
  have sub: "set ids \<subseteq> b_id ` set (backupRegistry w)"
    by (auto simp: ids_def reg_def)
  have mem: "\<And>b. b \<in> set reg \<Longrightarrow> (b_id b \<in> set ids) = ex b"
    using inj by (auto simp: ids_def dest: inj_onD)
  from deleteAll_ok [OF assms(1) dids sub assms(2), of host 0]
  obtain w' where d: "deleteAll host ids 0 w = (length ids, w')"
    and r: "backupRegistry w' = filter (\<lambda>b. b_id b \<notin> set ids) reg"
    and f: "\<forall>p. p \<noteq> registryPath host \<longrightarrow> files w' p =
                 (if \<exists>b\<in>set reg. b_id b \<in> set ids \<and> backupPath b = p then None else files w p)"
    and g: "ids \<noteq> [] \<longrightarrow> files w' (registryPath host) = Some (registryText (backupRegistry w'))"
    by (auto simp: reg_def)
  have c: "cleanupOldBackups host nowMs retentionDays w = (length (filter ex reg), w')"
    using d by (simp add: cleanupOldBackups_def ids_def ex_def reg_def Let_def)
  have r2: "backupRegistry w' = filter (\<lambda>b. \<not> ex b) reg"
    unfolding r using mem by (auto intro: filter_cong)
  have keep: "\<forall>b\<in>set reg. restored b \<longrightarrow> b \<in> set (backupRegistry w')"
    by (auto simp: r2 exdef)
  have f2: "\<forall>p. p \<noteq> registryPath host \<longrightarrow> files w' p =
                 (if \<exists>b\<in>set reg. ex b \<and> backupPath b = p then None else files w p)"
    using f mem by (metis (no_types, lifting))
  have g2: "(\<exists>b\<in>set reg. ex b) \<longrightarrow> files w' (registryPath host) = Some (registryText (backupRegistry w'))"
    using g by (auto simp: ids_def filter_empty_conv)
  have "cleanupOldBackups host nowMs retentionDays w = (length (filter ex reg), w')
      \<and> backupRegistry w' = filter (\<lambda>b. \<not> ex b) reg
      \<and> (\<forall>b\<in>set reg. restored b \<longrightarrow> b \<in> set (backupRegistry w'))
      \<and> (\<forall>p. p \<noteq> registryPath host \<longrightarrow> files w' p =
                 (if \<exists>b\<in>set reg. ex b \<and> backupPath b = p then None else files w p))
      \<and> ((\<exists>b\<in>set reg. ex b) \<longrightarrow> files w' (registryPath host) = Some (registryText (backupRegistry w')))"
    using c r2 keep f2 g2 by simp
  then show ?thesis
    unfolding exdef reg_def conj_assoc by (rule exI [of _ w'])
qed

text \<open>
  An instance of C8 as amended: two backups taken forty days ago, the second
  one restored since; a cleanup with thirty days of retention removes the first
  only and returns 1.
\<close>

theorem cleanupOldBackups_exact_witness:
  "distinct (map b_id (backupRegistry sampleCleanupWorld))
   \<and> dateValue sampleHost ''2026-01-01T00:00:00.000Z'' = Some (1770681600000 - 40 * 86400000)
   \<and> 1770681600000 + localTZA sampleHost 1770681600000 True - 30 * 86400000
       - localTZA sampleHost (1770681600000 + localTZA sampleHost 1770681600000 True - 30 * 86400000) False
       = 1770681600000 - 30 * 86400000
   \<and> fst (cleanupOldBackups sampleHost 1770681600000 30 sampleCleanupWorld) = 1
   \<and> backupRegistry (snd (cleanupOldBackups sampleHost 1770681600000 30 sampleCleanupWorld))
       = [sampleBackup ''b2'' ''2026-01-01T00:00:00.000Z'' True]
   \<and> files (snd (cleanupOldBackups sampleHost 1770681600000 30 sampleCleanupWorld))
        ''/home/dev/.local/share/GitSwitch/backups/.gitconfig_b1'' = None
   \<and> files (snd (cleanupOldBackups sampleHost 1770681600000 30 sampleCleanupWorld))
        ''/home/dev/.local/share/GitSwitch/backups/.gitconfig_b2'' = Some ''[user]''"
proof -
  have d: "distinct (map b_id (backupRegistry sampleCleanupWorld))"
    by (simp add: sampleCleanupWorld_def sampleBackup_def)
  have io: "\<forall>operation. \<not> ioFails sampleCleanupWorld operation"
    by (simp add: sampleCleanupWorld_def emptyWorld_def)
  have t: "dateValue sampleHost ''2026-01-01T00:00:00.000Z'' = Some (1770681600000 - 40 * 86400000)"
    by (simp add: sampleHost_def)
  have z: "localTZA sampleHost = (\<lambda>t isUTC. 0)"
    by (simp add: sampleHost_def)
  have lt: "(1770681600000 :: int) = 1770681600000 + localTZA sampleHost 1770681600000 True"
    by (simp add: z)
  have cut: "(1767225600000 + 10 * 86400000 :: int) = 1770681600000 - 30 * 86400000
                       - localTZA sampleHost (1770681600000 - 30 * 86400000) False"
    by (simp add: z)
  have reg: "backupRegistry sampleCleanupWorld =
      [sampleBackup ''b1'' ''2026-01-01T00:00:00.000Z'' False,
       sampleBackup ''b2'' ''2026-01-01T00:00:00.000Z'' True]"
    by (simp add: sampleCleanupWorld_def)
  have b1: "b_timestamp (sampleBackup ''b1'' ''2026-01-01T00:00:00.000Z'' False) = ''2026-01-01T00:00:00.000Z''"
      "restored (sampleBackup ''b1'' ''2026-01-01T00:00:00.000Z'' False) = False"
      "backupPath (sampleBackup ''b1'' ''2026-01-01T00:00:00.000Z'' False)
         = ''/home/dev/.local/share/GitSwitch/backups/.gitconfig_b1''"
    by (simp_all add: sampleBackup_def)
  have b2: "b_timestamp (sampleBackup ''b2'' ''2026-01-01T00:00:00.000Z'' True) = ''2026-01-01T00:00:00.000Z''"
      "restored (sampleBackup ''b2'' ''2026-01-01T00:00:00.000Z'' True) = True"
      "backupPath (sampleBackup ''b2'' ''2026-01-01T00:00:00.000Z'' True)
         = ''/home/dev/.local/share/GitSwitch/backups/.gitconfig_b2''"
    by (simp_all add: sampleBackup_def)
  have f: "files sampleCleanupWorld ''/home/dev/.local/share/GitSwitch/backups/.gitconfig_b2'' = Some ''[user]''"
    by (simp add: sampleCleanupWorld_def emptyWorld_def)
  from cleanupOldBackups_exact [OF d io lt cut refl]
  obtain w' where c: "cleanupOldBackups sampleHost 1770681600000 30 sampleCleanupWorld = (1, w')"
    and r: "backupRegistry w' = [sampleBackup ''b2'' ''2026-01-01T00:00:00.000Z'' True]"
    and fl: "\<forall>p. p \<noteq> registryPath sampleHost \<longrightarrow>
               files w' p =
                 (if p = ''/home/dev/.local/share/GitSwitch/backups/.gitconfig_b1''
                  then None else files sampleCleanupWorld p)"
    unfolding reg using t b1 b2 by (auto simp: eq_commute [of "backupPath _"])
  have f1: "files w' ''/home/dev/.local/share/GitSwitch/backups/.gitconfig_b1'' = None"
    using fl by (simp add: registryPath_sampleHost)
  have f2: "files w' ''/home/dev/.local/share/GitSwitch/backups/.gitconfig_b2'' = Some ''[user]''"
    using fl f by (simp add: registryPath_sampleHost)
  show ?thesis
    using d t c r f1 f2 by (simp add: z)
qed

text \<open>
  C8 as stated fails: the claim is for every registry state and has the number
  returned be the number of backups removed. On a disk that refuses the write
  of \<^verbatim>\<open>registry.json\<close>, \<^verbatim>\<open>deleteBackup\<close> has already deleted the backup file
  and taken the record out of the registry when the save fails; it answers
  \<^verbatim>\<open>false\<close>. So the cleanup returns 0, with the forty-day-old backup
  \<^verbatim>\<open>b1\<close> gone from the registry and from the disk.
\<close>

theorem cleanupOldBackups_miscounts_failed_save:
  "backupRegistry sampleFullDiskWorld =
     [sampleBackup ''b1'' ''2026-01-01T00:00:00.000Z'' False,
      sampleBackup ''b2'' ''2026-01-01T00:00:00.000Z'' True]
   \<and> fst (cleanupOldBackups sampleHost 1770681600000 30 sampleFullDiskWorld) = 0
   \<and> backupRegistry (snd (cleanupOldBackups sampleHost 1770681600000 30 sampleFullDiskWorld))
       = [sampleBackup ''b2'' ''2026-01-01T00:00:00.000Z'' True]
   \<and> files sampleFullDiskWorld ''/home/dev/.local/share/GitSwitch/backups/.gitconfig_b1'' = Some ''[user]''
   \<and> files (snd (cleanupOldBackups sampleHost 1770681600000 30 sampleFullDiskWorld))
        ''/home/dev/.local/share/GitSwitch/backups/.gitconfig_b1'' = None"
proof -
  have reg: "backupRegistry sampleFullDiskWorld =
     [sampleBackup ''b1'' ''2026-01-01T00:00:00.000Z'' False,
      sampleBackup ''b2'' ''2026-01-01T00:00:00.000Z'' True]"
    by (simp add: sampleFullDiskWorld_def sampleCleanupWorld_def)
  have cutoff: "cutoffDate sampleHost 1770681600000 30 = Some 1768089600000"
    by (simp add: cutoffDate_def timeClip_def msPerDay_def sampleHost_def)
  have e1: "isExpired sampleHost (Some 1768089600000) (sampleBackup ''b1'' ''2026-01-01T00:00:00.000Z'' False)"
    by (simp add: isExpired_def sampleBackup_def sampleHost_def)
  have e2: "\<not> isExpired sampleHost (Some 1768089600000) (sampleBackup ''b2'' ''2026-01-01T00:00:00.000Z'' True)"
    by (simp add: isExpired_def sampleBackup_def)
  have c: "cleanupOldBackups sampleHost 1770681600000 30 sampleFullDiskWorld
      = deleteAll sampleHost [''b1''] 0 sampleFullDiskWorld"
    by (simp add: cleanupOldBackups_def cutoff reg e1 e2) (simp add: sampleBackup_def)
  have f: "files sampleFullDiskWorld ''/home/dev/.local/share/GitSwitch/backups/.gitconfig_b1'' = Some ''[user]''"
    by (simp add: sampleFullDiskWorld_def sampleCleanupWorld_def emptyWorld_def)
  have k: "findIndex (\<lambda>b. b_id b = ''b1'') (backupRegistry sampleFullDiskWorld) = Some 0"
    by (simp add: reg sampleBackup_def)
  have bp: "''/home/dev/.local/share/GitSwitch/backups/.gitconfig_b1''
      = backupPath (backupRegistry sampleFullDiskWorld ! 0)"
    by (simp add: reg sampleBackup_def)
  have ne: "files sampleFullDiskWorld ''/home/dev/.local/share/GitSwitch/backups/.gitconfig_b1'' \<noteq> None"
    using f by simp
  have u: "\<not> ioFails sampleFullDiskWorld (OpUnlink ''/home/dev/.local/share/GitSwitch/backups/.gitconfig_b1'')"
    by (simp add: sampleFullDiskWorld_def)
  have wr: "ioFails sampleFullDiskWorld (OpWrite (registryPath sampleHost))"
    by (simp add: sampleFullDiskWorld_def registryPath_sampleHost)
  have del: "deleteBackup sampleHost ''b1'' sampleFullDiskWorld =
      (False, sampleFullDiskWorld
         \<lparr>files := (files sampleFullDiskWorld)
             (''/home/dev/.local/share/GitSwitch/backups/.gitconfig_b1'' := None),
          trace := trace sampleFullDiskWorld
             @ [FileUnlinked ''/home/dev/.local/share/GitSwitch/backups/.gitconfig_b1''],
          backupRegistry := [sampleBackup ''b2'' ''2026-01-01T00:00:00.000Z'' True]\<rparr>)"
    unfolding deleteBackup_save_fails [OF k bp ne u wr] by (simp add: reg)
  show ?thesis
    using reg f by (simp add: c del)
qed

text \<open>
  The cutoff is not always \<^verbatim>\<open>retentionDays\<close> times 24 hours before now. On
  2026-03-30T12:00:00Z, in a zone that moved its clocks forward the day
  before, the cutoff of a two-day retention is 2026-03-28T13:00:00Z, 47 hours
  earlier: a backup taken at 12:30Z that day, less than 48 hours old, is
  older than the cutoff.
\<close>

lemma cutoffDate_across_offset_change:
  "cutoffDate sampleDstHost 1774872000000 2 = Some 1774702800000
   \<and> (1774872000000 :: int) - 2 * 86400000 = 1774699200000
   \<and> dateValue sampleDstHost ''2026-03-28T12:30:00.000Z'' = Some 1774701000000
   \<and> isExpired sampleDstHost (cutoffDate sampleDstHost 1774872000000 2)
        (sampleBackup ''b1'' ''2026-03-28T12:30:00.000Z'' False)"
  by (simp add: cutoffDate_def timeClip_def msPerDay_def isExpired_def sampleDstHost_def
      sampleBackup_def sampleHost_def)

subsection \<open>Backup before a config write\<close>

lemma prefix_before_first:
  assumes "xs @ ys = pre @ e # post" and "e \<notin> set xs"
  shows "set xs \<subseteq> set pre \<and> e \<in> set ys"
proof -
  from assms(1) obtain us where
    "(xs = pre @ us \<and> us @ ys = e # post) \<or> (xs @ us = pre \<and> ys = us @ e # post)"
    by (auto simp: append_eq_append_conv2)
  then show ?thesis
  proof
    assume a: "xs = pre @ us \<and> us @ ys = e # post"
    show ?thesis
    proof (cases us)
      case Nil
      with a show ?thesis by auto
    next
      case (Cons u us')
      with a have "u = e" by simp
      with a Cons assms(2) show ?thesis by auto
    qed
  next
    assume "xs @ us = pre \<and> ys = us @ e # post"
    then show ?thesis by auto
  qed
qed

lemma createBackup_events:
  "\<exists>evs. trace (snd (createBackup host env p t why w)) = trace w @ CreateBackupCalled p # evs
     \<and> (\<forall>q k. GitConfigWritten q k \<notin> set evs)
     \<and> ((\<exists>x. fst (createBackup host env p t why w) = Inr x) \<and> files w p \<noteq> None \<longrightarrow>
          FileWritten (pathJoin [getBackupDir host, backupFileName p (now env) (uuid env)]) \<in> set evs
          \<and> RegistrySaved (map b_id (backupRegistry w) @ [uuid env]) \<in> set evs)"
  by (auto simp: createBackup_def pathExists_def readFile_def ensureDir_def writeFile_def
      saveRegistry_def Let_def split: option.splits)

lemma addConfigIf_events:
  "addConfigIf host baseDir key v scope w = Some w1 \<Longrightarrow>
     \<exists>evs. trace w1 = trace w @ evs \<and> (\<forall>e\<in>set evs. \<exists>q. e = GitConfigWritten q key)"
  by (auto simp: addConfigIf_def addConfig_def Let_def split: option.splits if_splits)

lemma log_events:
  "\<exists>evs. trace (snd (log host env cat act dets options w)) = trace w @ evs
     \<and> (\<forall>e\<in>set evs. \<exists>f. e = FileAppended f)"
  by (auto simp: log_def appendToLog_def ensureDir_def appendFile_def Let_def
      split: option.splits)

lemma guarded_events:
  assumes b: "\<forall>q k. GitConfigWritten q k \<notin> set evB"
    and g: "\<forall>e\<in>set evG. (\<exists>q k. e = GitConfigWritten q k) \<or> (\<exists>f. e = FileAppended f)"
    and ok: "evG \<noteq> [] \<longrightarrow> returned"
    and rec: "returned \<and> existed \<longrightarrow> fw \<in> set evB \<and> rs \<in> set evB"
    and dec: "CreateBackupCalled cfg # evB @ evG = pre @ GitConfigWritten q k # post"
  shows "CreateBackupCalled cfg \<in> set pre \<and> (existed \<longrightarrow> fw \<in> set pre \<and> rs \<in> set pre)"
proof -
  have "GitConfigWritten q k \<notin> set (CreateBackupCalled cfg # evB)"
    using b by simp
  with dec prefix_before_first [of "CreateBackupCalled cfg # evB" evG pre "GitConfigWritten q k" post]
  have sub: "set (CreateBackupCalled cfg # evB) \<subseteq> set pre" and inG: "GitConfigWritten q k \<in> set evG"
    by simp_all
  from inG have "evG \<noteq> []" by auto
  with ok have returned by simp
  then show ?thesis using sub rec by auto
qed

lemma setLocalConfig_alt:
  assumes "cfg = pathJoin [repoPath, ''.git'', ''config'']"
    and "why = ''Setting local config for '' @ basename repoPath"
  shows "setLocalConfig host envB envA repoPath config w =
     (case createBackup host envB cfg git_config_local why w of
           (Inl e, w1) \<Rightarrow> (Inl FailedToSetLocalGitConfig, w1)
         | (Inr backup, w1) \<Rightarrow>
             (case addConfigIf host (Some repoPath) ''user.email'' (g_email config) ScopeLocal w1 of
                None \<Rightarrow> (Inl FailedToSetLocalGitConfig, w1)
              | Some w2 \<Rightarrow>
                  (case addConfigIf host (Some repoPath) ''user.name'' (g_username config) ScopeLocal w2 of
                     None \<Rightarrow> (Inl FailedToSetLocalGitConfig, w2)
                   | Some w3 \<Rightarrow>
                       (case logRepoBinding host envA repoPath ''direct-config''
                               (map_option b_id backup) w3 of
                          (Inl e, w4) \<Rightarrow> (Inl FailedToSetLocalGitConfig, w4)
                        | (Inr entry, w4) \<Rightarrow> (Inr (), w4)))))"
  unfolding setLocalConfig_def Let_def assms ..

lemma setGlobalConfig_alt:
  assumes "cfg = getGlobalGitConfigPath host"
  shows "setGlobalConfig host envB config w =
     (case createBackup host envB cfg git_config_global ''Setting global git config'' w of
           (Inl e, w1) \<Rightarrow> (Inl FailedToSetGlobalGitConfig, w1)
         | (Inr backup, w1) \<Rightarrow>
             (case addConfigIf host None ''user.email'' (g_email config) ScopeGlobal w1 of
                None \<Rightarrow> (Inl FailedToSetGlobalGitConfig, w1)
              | Some w2 \<Rightarrow>
                  (case addConfigIf host None ''user.name'' (g_username config) ScopeGlobal w2 of
                     None \<Rightarrow> (Inl FailedToSetGlobalGitConfig, w2)
                   | Some w3 \<Rightarrow> (Inr (), w3))))"
  unfolding setGlobalConfig_def Let_def assms ..

lemma setLocalConfig_trace:
  assumes c: "cfg = pathJoin [repoPath, ''.git'', ''config'']"
    and y: "why = ''Setting local config for '' @ basename repoPath"
    and cbv: "createBackup host envB cfg git_config_local why w = (r, w1)"
    and evB: "trace w1 = trace w @ CreateBackupCalled cfg # evB"
  shows "\<exists>evG. trace (snd (setLocalConfig host envB envA repoPath config w))
       = trace w @ CreateBackupCalled cfg # evB @ evG
     \<and> (\<forall>e\<in>set evG. (\<exists>q k. e = GitConfigWritten q k) \<or> (\<exists>f. e = FileAppended f))
     \<and> (evG \<noteq> [] \<longrightarrow> (\<exists>x. r = Inr x))"
proof (cases r)
  case (Inl e)
  then have "snd (setLocalConfig host envB envA repoPath config w) = w1"
    using cbv by (simp add: setLocalConfig_alt [OF c y])
  then show ?thesis using evB by (intro exI [of _ "[]"]) simp
next
  case (Inr backup)
  show ?thesis
  proof (cases "addConfigIf host (Some repoPath) ''user.email'' (g_email config) ScopeLocal w1")
    case None
    then have "snd (setLocalConfig host envB envA repoPath config w) = w1"
      using cbv Inr by (simp add: setLocalConfig_alt [OF c y])
    then show ?thesis using evB by (intro exI [of _ "[]"]) simp
  next
    case (Some w2)
    from addConfigIf_events [OF Some] obtain e1 where
      e1: "trace w2 = trace w1 @ e1" "\<forall>e\<in>set e1. \<exists>q. e = GitConfigWritten q ''user.email''" by blast
    show ?thesis
    proof (cases "addConfigIf host (Some repoPath) ''user.name'' (g_username config) ScopeLocal w2")
      case None
      then have "snd (setLocalConfig host envB envA repoPath config w) = w2"
        using cbv Inr Some by (simp add: setLocalConfig_alt [OF c y])
      then show ?thesis using evB e1 Inr by (intro exI [of _ e1]) auto
    next
      case S3: (Some w3)
      from addConfigIf_events [OF S3] obtain e2 where
        e2: "trace w3 = trace w2 @ e2" "\<forall>e\<in>set e2. \<exists>q. e = GitConfigWritten q ''user.name''" by blast
      define lg where "lg = logRepoBinding host envA repoPath ''direct-config'' (map_option b_id backup) w3"
      from log_events obtain e3 where
        e3: "trace (snd lg) = trace w3 @ e3" "\<forall>e\<in>set e3. \<exists>f. e = FileAppended f"
        unfolding lg_def logRepoBinding_def by blast
      have "snd (setLocalConfig host envB envA repoPath config w) = snd lg"
        using cbv Inr Some S3
        by (simp add: setLocalConfig_alt [OF c y] lg_def [symmetric] split: prod.splits sum.splits)
      then show ?thesis using evB e1 e2 e3 Inr
        by (intro exI [of _ "e1 @ e2 @ e3"]) auto
    qed
  qed
qed

lemma setGlobalConfig_trace:
  assumes c: "cfg = getGlobalGitConfigPath host"
    and cbv: "createBackup host envB cfg git_config_global ''Setting global git config'' w = (r, w1)"
    and evB: "trace w1 = trace w @ CreateBackupCalled cfg # evB"
  shows "\<exists>evG. trace (snd (setGlobalConfig host envB config w))
       = trace w @ CreateBackupCalled cfg # evB @ evG
     \<and> (\<forall>e\<in>set evG. (\<exists>q k. e = GitConfigWritten q k) \<or> (\<exists>f. e = FileAppended f))
     \<and> (evG \<noteq> [] \<longrightarrow> (\<exists>x. r = Inr x))"
proof (cases r)
  case (Inl e)
  then have "snd (setGlobalConfig host envB config w) = w1"
    using cbv by (simp add: setGlobalConfig_alt [OF c])
  then show ?thesis using evB by (intro exI [of _ "[]"]) simp
next
  case (Inr backup)
  show ?thesis
  proof (cases "addConfigIf host None ''user.email'' (g_email config) ScopeGlobal w1")
    case None
    then have "snd (setGlobalConfig host envB config w) = w1"
      using cbv Inr by (simp add: setGlobalConfig_alt [OF c])
    then show ?thesis using evB by (intro exI [of _ "[]"]) simp
  next
    case (Some w2)
    from addConfigIf_events [OF Some] obtain e1 where
      e1: "trace w2 = trace w1 @ e1" "\<forall>e\<in>set e1. \<exists>q. e = GitConfigWritten q ''user.email''" by blast
    show ?thesis
    proof (cases "addConfigIf host None ''user.name'' (g_username config) ScopeGlobal w2")
      case None
      then have "snd (setGlobalConfig host envB config w) = w2"
        using cbv Inr Some by (simp add: setGlobalConfig_alt [OF c])
      then show ?thesis using evB e1 Inr by (intro exI [of _ e1]) auto
    next
      case S3: (Some w3)
      from addConfigIf_events [OF S3] obtain e2 where
        e2: "trace w3 = trace w2 @ e2" "\<forall>e\<in>set e2. \<exists>q. e = GitConfigWritten q ''user.name''" by blast
      have "snd (setGlobalConfig host envB config w) = w3"
        using cbv Inr Some S3 by (simp add: setGlobalConfig_alt [OF c])
      then show ?thesis using evB e1 e2 Inr
        by (intro exI [of _ "e1 @ e2"]) auto
    qed
  qed
qed

text \<open>
  What the two setters do keep. In every execution of \<^verbatim>\<open>setLocalConfig\<close> and
  of \<^verbatim>\<open>setGlobalConfig\<close>, whatever fails on the way, each write of a git
  config comes after the call of \<^verbatim>\<open>createBackup\<close> on the path the service
  names (\<^verbatim>\<open><repo>/.git/config\<close>, the path of \<^verbatim>\<open>getGlobalGitConfigPath\<close>); and
  when a file existed at that path at the start, its backup file has been
  written and the registry, now holding the new backup, has been saved before
  that write. Nothing here says that the file git writes is the file at that
  path.
\<close>

lemma config_writes_follow_backup_call:
  "(\<exists>evs. trace (snd (setLocalConfig host envB envA repoPath config w)) = trace w @ evs
      \<and> (\<forall>pre q k post. evs = pre @ GitConfigWritten q k # post \<longrightarrow>
            CreateBackupCalled (pathJoin [repoPath, ''.git'', ''config'']) \<in> set pre
          \<and> (files w (pathJoin [repoPath, ''.git'', ''config'']) \<noteq> None \<longrightarrow>
                FileWritten (pathJoin [getBackupDir host,
                    backupFileName (pathJoin [repoPath, ''.git'', ''config'']) (now envB) (uuid envB)])
                  \<in> set pre
              \<and> RegistrySaved (map b_id (backupRegistry w) @ [uuid envB]) \<in> set pre)))
   \<and> (\<exists>evs. trace (snd (setGlobalConfig host envB config w)) = trace w @ evs
      \<and> (\<forall>pre q k post. evs = pre @ GitConfigWritten q k # post \<longrightarrow>
            CreateBackupCalled (getGlobalGitConfigPath host) \<in> set pre
          \<and> (files w (getGlobalGitConfigPath host) \<noteq> None \<longrightarrow>
                FileWritten (pathJoin [getBackupDir host,
                    backupFileName (getGlobalGitConfigPath host) (now envB) (uuid envB)])
                  \<in> set pre
              \<and> RegistrySaved (map b_id (backupRegistry w) @ [uuid envB]) \<in> set pre)))"
proof
  define cfg where "cfg = pathJoin [repoPath, ''.git'', ''config'']"
  define why where "why = ''Setting local config for '' @ basename repoPath"
  define cb where "cb = createBackup host envB cfg git_config_local why w"
  from createBackup_events [of host envB cfg git_config_local why w]
  obtain evB where evB: "trace (snd cb) = trace w @ CreateBackupCalled cfg # evB"
    and nog: "\<forall>q k. GitConfigWritten q k \<notin> set evB"
    and rec: "(\<exists>x. fst cb = Inr x) \<and> files w cfg \<noteq> None \<longrightarrow>
          FileWritten (pathJoin [getBackupDir host, backupFileName cfg (now envB) (uuid envB)]) \<in> set evB
          \<and> RegistrySaved (map b_id (backupRegistry w) @ [uuid envB]) \<in> set evB"
    unfolding cb_def by blast
  have cbv: "createBackup host envB cfg git_config_local why w = (fst cb, snd cb)"
    by (simp add: cb_def)
  from setLocalConfig_trace [OF cfg_def why_def cbv evB, of envA config]
  obtain evG where tr: "trace (snd (setLocalConfig host envB envA repoPath config w))
       = trace w @ CreateBackupCalled cfg # evB @ evG"
    and g: "\<forall>e\<in>set evG. (\<exists>q k. e = GitConfigWritten q k) \<or> (\<exists>f. e = FileAppended f)"
    and ok: "evG \<noteq> [] \<longrightarrow> (\<exists>x. fst cb = Inr x)"
    by blast
  show "\<exists>evs. trace (snd (setLocalConfig host envB envA repoPath config w)) = trace w @ evs
      \<and> (\<forall>pre q k post. evs = pre @ GitConfigWritten q k # post \<longrightarrow>
            CreateBackupCalled (pathJoin [repoPath, ''.git'', ''config'']) \<in> set pre
          \<and> (files w (pathJoin [repoPath, ''.git'', ''config'']) \<noteq> None \<longrightarrow>
                FileWritten (pathJoin [getBackupDir host,
                    backupFileName (pathJoin [repoPath, ''.git'', ''config'']) (now envB) (uuid envB)])
                  \<in> set pre
              \<and> RegistrySaved (map b_id (backupRegistry w) @ [uuid envB]) \<in> set pre))"
    unfolding cfg_def [symmetric]
    using tr guarded_events [OF nog g ok rec]
    by (intro exI [of _ "CreateBackupCalled cfg # evB @ evG"]) blast
next
  define cfg where "cfg = getGlobalGitConfigPath host"
  define cb where "cb = createBackup host envB cfg git_config_global ''Setting global git config'' w"
  from createBackup_events [of host envB cfg git_config_global "''Setting global git config''" w]
  obtain evB where evB: "trace (snd cb) = trace w @ CreateBackupCalled cfg # evB"
    and nog: "\<forall>q k. GitConfigWritten q k \<notin> set evB"
    and rec: "(\<exists>x. fst cb = Inr x) \<and> files w cfg \<noteq> None \<longrightarrow>
          FileWritten (pathJoin [getBackupDir host, backupFileName cfg (now envB) (uuid envB)]) \<in> set evB
          \<and> RegistrySaved (map b_id (backupRegistry w) @ [uuid envB]) \<in> set evB"
    unfolding cb_def by blast
  have cbv: "createBackup host envB cfg git_config_global ''Setting global git config'' w = (fst cb, snd cb)"
    by (simp add: cb_def)
  from setGlobalConfig_trace [OF cfg_def cbv evB, of config]
  obtain evG where tr: "trace (snd (setGlobalConfig host envB config w))
       = trace w @ CreateBackupCalled cfg # evB @ evG"
    and g: "\<forall>e\<in>set evG. (\<exists>q k. e = GitConfigWritten q k) \<or> (\<exists>f. e = FileAppended f)"
    and ok: "evG \<noteq> [] \<longrightarrow> (\<exists>x. fst cb = Inr x)"
    by blast
  show "\<exists>evs. trace (snd (setGlobalConfig host envB config w)) = trace w @ evs
      \<and> (\<forall>pre q k post. evs = pre @ GitConfigWritten q k # post \<longrightarrow>
            CreateBackupCalled (getGlobalGitConfigPath host) \<in> set pre
          \<and> (files w (getGlobalGitConfigPath host) \<noteq> None \<longrightarrow>
                FileWritten (pathJoin [getBackupDir host,
                    backupFileName (getGlobalGitConfigPath host) (now envB) (uuid envB)])
                  \<in> set pre
              \<and> RegistrySaved (map b_id (backupRegistry w) @ [uuid envB]) \<in> set pre))"
    unfolding cfg_def [symmetric]
    using tr guarded_events [OF nog g ok rec]
    by (intro exI [of _ "CreateBackupCalled cfg # evB @ evG"]) blast
qed

lemma globalPath_sampleHost: "getGlobalGitConfigPath sampleHost = ''/home/dev/.gitconfig''"
  by (simp add: getGlobalGitConfigPath_def sampleHost_def pathJoin_def pathNormalize_def Let_def)

lemma globalPath_sampleXdgHost: "getGlobalGitConfigPath sampleXdgHost = ''/home/dev/.config/git/config''"
  by (simp add: getGlobalGitConfigPath_def sampleXdgHost_def sampleHost_def pathJoin_def
      pathNormalize_def Let_def)

lemma gitFile_sampleXdgHost:
  "exists ''/home/dev/.gitconfig'' \<Longrightarrow>
     gitConfigFile sampleXdgHost ScopeGlobal None exists = ''/home/dev/.gitconfig''"
  by (simp add: sampleXdgHost_def sampleHost_def documentedGitFile_def pathJoin_def
      pathNormalize_def Let_def)

lemma localPath_worktree:
  "pathJoin [''/home/dev/widgets-fix'', ''.git'', ''config''] = ''/home/dev/widgets-fix/.git/config''"
  by (simp add: pathJoin_def pathNormalize_def Let_def)

lemma gitFile_sampleWorktreeHost:
  "gitConfigFile sampleWorktreeHost ScopeLocal (Some ''/home/dev/widgets-fix'') exists
     = ''/home/dev/widgets/.git/config''"
  by (simp add: sampleWorktreeHost_def sampleHost_def)

text \<open>
  With the file at the named path missing, \<^verbatim>\<open>createBackup\<close> returns \<^verbatim>\<open>null\<close> and
  the setter goes on: a first config is written with nothing recorded.
\<close>

lemma config_written_without_backup_record:
  "files emptyWorld (getGlobalGitConfigPath sampleHost) = None
   \<and> fst (setGlobalConfig sampleHost sampleEnv sampleIdentity emptyWorld) = Inr ()
   \<and> trace (snd (setGlobalConfig sampleHost sampleEnv sampleIdentity emptyWorld)) =
       [CreateBackupCalled ''/home/dev/.gitconfig'',
        GitConfigWritten ''/home/dev/.gitconfig'' ''user.email'',
        GitConfigWritten ''/home/dev/.gitconfig'' ''user.name'']
   \<and> backupRegistry (snd (setGlobalConfig sampleHost sampleEnv sampleIdentity emptyWorld)) = []"
  by (simp add: setGlobalConfig_def createBackup_def addConfigIf_def addConfig_def
      pathExists_def Let_def emptyWorld_def sampleIdentity_def globalPath_sampleHost)
     (simp add: sampleHost_def documentedGitFile_def pathJoin_def pathNormalize_def pathExists_def
        Let_def)

text \<open>
  \<^verbatim>\<open>setRemoteUrl\<close> writes the repository's config and asks for no backup.
\<close>

lemma setRemoteUrl_without_backup:
  "setRemoteUrl host repoPath remoteName u w = (Inr (), w') \<Longrightarrow>
     trace w' = trace w @ [GitConfigWritten (gitConfigFile host ScopeLocal (Some repoPath) (pathExists w))
                             (''remote.'' @ remoteName @ ''.url'')]
     \<and> backupRegistry w' = backupRegistry w"
  by (auto simp: setRemoteUrl_def addConfig_def Let_def split: option.splits if_splits)

text \<open>
  C4. The claim is that every write of a tracked config file by
  \<^verbatim>\<open>setGlobalConfig\<close> or \<^verbatim>\<open>setLocalConfig\<close> is preceded by a backup of that
  exact file, and the backup service is documented so (every modification to
  git config is backed up first). The setters back up the path they compute
  and then hand git a scope; the file git writes can be another one.

  Global: with \<^verbatim>\<open>XDG_CONFIG_HOME\<close> set, \<^verbatim>\<open>getGlobalGitConfigPath\<close> is
  \<^verbatim>\<open>$XDG_CONFIG_HOME/git/config\<close>, while git writes \<^verbatim>\<open>~/.gitconfig\<close> when that
  file exists. For a user with the usual \<^verbatim>\<open>~/.gitconfig\<close>, \<^verbatim>\<open>setGlobalConfig\<close>
  asks for a backup of a file that does not exist, gets \<^verbatim>\<open>null\<close>, and then
  rewrites \<^verbatim>\<open>~/.gitconfig\<close>: the call succeeds, the file has changed, no
  backup file was written and the registry is empty.

  Local: in a linked working tree \<^verbatim>\<open><repo>/.git\<close> is a file, so
  \<^verbatim>\<open><repo>/.git/config\<close> does not exist, and git writes the config of the
  main repository: \<^verbatim>\<open>setLocalConfig\<close> rewrites that file with no backup of it.
\<close>

theorem config_rewritten_without_backup:
  "getGlobalGitConfigPath sampleXdgHost = ''/home/dev/.config/git/config''
   \<and> files sampleHomeConfigWorld ''/home/dev/.gitconfig'' = Some ''[user]''
   \<and> fst (setGlobalConfig sampleXdgHost sampleEnv sampleIdentity sampleHomeConfigWorld) = Inr ()
   \<and> trace (snd (setGlobalConfig sampleXdgHost sampleEnv sampleIdentity sampleHomeConfigWorld)) =
       [CreateBackupCalled ''/home/dev/.config/git/config'',
        GitConfigWritten ''/home/dev/.gitconfig'' ''user.email'',
        GitConfigWritten ''/home/dev/.gitconfig'' ''user.name'']
   \<and> files (snd (setGlobalConfig sampleXdgHost sampleEnv sampleIdentity sampleHomeConfigWorld))
        ''/home/dev/.gitconfig'' \<noteq> Some ''[user]''
   \<and> backupRegistry (snd (setGlobalConfig sampleXdgHost sampleEnv sampleIdentity sampleHomeConfigWorld)) = []
   \<and> files sampleWorktreeWorld ''/home/dev/widgets/.git/config'' = Some ''[user]''
   \<and> fst (setLocalConfig sampleWorktreeHost sampleEnv sampleEnv ''/home/dev/widgets-fix''
             sampleIdentity sampleWorktreeWorld) = Inr ()
   \<and> filter (\<lambda>e. \<forall>f. e \<noteq> FileAppended f)
        (trace (snd (setLocalConfig sampleWorktreeHost sampleEnv sampleEnv ''/home/dev/widgets-fix''
                       sampleIdentity sampleWorktreeWorld))) =
       [CreateBackupCalled ''/home/dev/widgets-fix/.git/config'',
        GitConfigWritten ''/home/dev/widgets/.git/config'' ''user.email'',
        GitConfigWritten ''/home/dev/widgets/.git/config'' ''user.name'']
   \<and> files (snd (setLocalConfig sampleWorktreeHost sampleEnv sampleEnv ''/home/dev/widgets-fix''
                    sampleIdentity sampleWorktreeWorld))
        ''/home/dev/widgets/.git/config'' \<noteq> Some ''[user]''
   \<and> backupRegistry (snd (setLocalConfig sampleWorktreeHost sampleEnv sampleEnv ''/home/dev/widgets-fix''
                             sampleIdentity sampleWorktreeWorld)) = []"
proof -
  have g: "fst (setGlobalConfig sampleXdgHost sampleEnv sampleIdentity sampleHomeConfigWorld) = Inr ()
      \<and> trace (snd (setGlobalConfig sampleXdgHost sampleEnv sampleIdentity sampleHomeConfigWorld)) =
       [CreateBackupCalled ''/home/dev/.config/git/config'',
        GitConfigWritten ''/home/dev/.gitconfig'' ''user.email'',
        GitConfigWritten ''/home/dev/.gitconfig'' ''user.name'']
      \<and> files (snd (setGlobalConfig sampleXdgHost sampleEnv sampleIdentity sampleHomeConfigWorld))
        ''/home/dev/.gitconfig'' \<noteq> Some ''[user]''
      \<and> backupRegistry (snd (setGlobalConfig sampleXdgHost sampleEnv sampleIdentity sampleHomeConfigWorld)) = []"
    by (simp add: setGlobalConfig_def createBackup_def addConfigIf_def addConfig_def
        pathExists_def Let_def sampleHomeConfigWorld_def emptyWorld_def sampleIdentity_def
        globalPath_sampleXdgHost gitFile_sampleXdgHost)
       (simp add: sampleXdgHost_def sampleHost_def)
  have l: "fst (setLocalConfig sampleWorktreeHost sampleEnv sampleEnv ''/home/dev/widgets-fix''
             sampleIdentity sampleWorktreeWorld) = Inr ()
      \<and> filter (\<lambda>e. \<forall>f. e \<noteq> FileAppended f)
        (trace (snd (setLocalConfig sampleWorktreeHost sampleEnv sampleEnv ''/home/dev/widgets-fix''
                       sampleIdentity sampleWorktreeWorld))) =
       [CreateBackupCalled ''/home/dev/widgets-fix/.git/config'',
        GitConfigWritten ''/home/dev/widgets/.git/config'' ''user.email'',
        GitConfigWritten ''/home/dev/widgets/.git/config'' ''user.name'']
      \<and> files (snd (setLocalConfig sampleWorktreeHost sampleEnv sampleEnv ''/home/dev/widgets-fix''
                    sampleIdentity sampleWorktreeWorld))
        ''/home/dev/widgets/.git/config'' \<noteq> Some ''[user]''
      \<and> backupRegistry (snd (setLocalConfig sampleWorktreeHost sampleEnv sampleEnv ''/home/dev/widgets-fix''
                             sampleIdentity sampleWorktreeWorld)) = []"
    by (simp add: setLocalConfig_def createBackup_def addConfigIf_def addConfig_def
        pathExists_def Let_def sampleWorktreeWorld_def emptyWorld_def sampleIdentity_def
        localPath_worktree gitFile_sampleWorktreeHost logRepoBinding_def log_def appendToLog_def
        ensureDir_def appendFile_def JSON_stringify_def
        del: serialize.simps split: option.splits)
       (simp add: sampleWorktreeHost_def sampleHost_def)
  have f1: "files sampleHomeConfigWorld ''/home/dev/.gitconfig'' = Some ''[user]''"
    by (simp add: sampleHomeConfigWorld_def)
  have f2: "files sampleWorktreeWorld ''/home/dev/widgets/.git/config'' = Some ''[user]''"
    by (simp add: sampleWorktreeWorld_def)
  show ?thesis
    using g l f1 f2 globalPath_sampleXdgHost by simp
qed

subsection \<open>No run of profile requests leaves two defaults\<close>

text \<open>
  One half of the invariant on the default profile holds for every run: from a
  store with distinct ids and at most one default, create, update, delete and
  setDefault each lead to such a store again, provided the ids drawn by create
  are fresh. The other half (a non-empty store has a default) is the one that
  update breaks.
\<close>

lemma other_id: "v \<notin> f ` A \<Longrightarrow> y \<in> A \<Longrightarrow> f y \<noteq> v"
  by blast

lemma p_id_after_flag [simp]: "p_id \<circ> (\<lambda>p. p\<lparr>isDefault := b p\<rparr>) = p_id"
  by (simp add: fun_eq_iff)

lemma p_id_after_clear [simp]: "p_id \<circ> isDefault_update g = p_id"
  by (simp add: fun_eq_iff)

lemma findIndex_append_first:
  "\<forall>y\<in>set a. \<not> P y \<Longrightarrow> P x \<Longrightarrow> findIndex P (a @ x # b) = Some (length a)"
  by (induction a) auto

lemma saveProfile_new:
  "p_id p \<notin> set (map p_id ps) \<Longrightarrow> saveProfile p ps = ps @ [p]"
proof -
  assume "p_id p \<notin> set (map p_id ps)"
  then have "findIndex (\<lambda>q. p_id q = p_id p) ps = None"
    by (auto simp: findIndex_None_iff dest: other_id)
  then show ?thesis by (simp add: saveProfile_def)
qed

lemma saveProfile_at:
  assumes "distinct (map p_id (a @ x # b))" and "p_id y = p_id x"
  shows "saveProfile y (a @ x # b) = a @ y # b"
proof -
  have "\<forall>q\<in>set a. \<not> (p_id q = p_id y)"
    using assms by (auto dest: other_id)
  then have "findIndex (\<lambda>q. p_id q = p_id y) (a @ x # b) = Some (length a)"
    by (rule findIndex_append_first) (simp add: assms(2))
  then show ?thesis by (simp add: saveProfile_def)
qed

lemma fold_saveProfile_map:
  assumes "\<And>p. p_id (f p) = p_id p"
  shows "distinct (map p_id (a @ b)) \<Longrightarrow> fold saveProfile (map f b) (a @ b) = a @ map f b"
proof (induction b arbitrary: a)
  case Nil
  then show ?case by simp
next
  case (Cons x b)
  have s: "saveProfile (f x) (a @ x # b) = a @ f x # b"
    using Cons.prems assms by (intro saveProfile_at) auto
  have d: "distinct (map p_id ((a @ [f x]) @ b))"
    using Cons.prems assms by auto
  from Cons.IH [OF d] s show ?case by simp
qed

lemma rewrite_all:
  assumes "\<And>p. p_id (f p) = p_id p" and "distinct (map p_id ps)"
  shows "fold saveProfile (map f ps) ps = map f ps"
  using fold_saveProfile_map [of f "[]" ps] assms by simp

lemma defaultCount_append [simp]:
  "defaultCount (a @ b) = defaultCount a + defaultCount b"
  by (simp add: defaultCount_def)

lemma defaultCount_Cons [simp]:
  "defaultCount (x # b) = (if isDefault x then 1 else 0) + defaultCount b"
  by (simp add: defaultCount_def)

lemma defaultCount_Nil [simp]: "defaultCount [] = 0"
  by (simp add: defaultCount_def)

lemma defaultCount_cleared: "defaultCount (map (\<lambda>p. p\<lparr>isDefault := False\<rparr>) ps) = 0"
  by (induction ps) auto

lemma defaultCount_elect_none:
  "\<forall>p\<in>set ps. p_id p \<noteq> i \<Longrightarrow> defaultCount (map (\<lambda>p. p\<lparr>isDefault := (p_id p = i)\<rparr>) ps) = 0"
  by (induction ps) auto

lemma defaultCount_elect:
  "distinct (map p_id ps) \<Longrightarrow> defaultCount (map (\<lambda>p. p\<lparr>isDefault := (p_id p = i)\<rparr>) ps) \<le> Suc 0"
proof (induction ps)
  case Nil
  then show ?case by simp
next
  case (Cons x ps)
  show ?case
  proof (cases "p_id x = i")
    case True
    then have "\<forall>p\<in>set ps. p_id p \<noteq> i" using Cons.prems by (auto dest: other_id)
    then show ?thesis using True by (simp add: defaultCount_elect_none)
  next
    case False
    then show ?thesis using Cons by simp
  qed
qed

lemma defaultCount_filter: "defaultCount (filter P ps) \<le> defaultCount ps"
  by (induction ps) auto

lemma ids_elect [simp]: "map p_id (map (\<lambda>p. p\<lparr>isDefault := b p\<rparr>) ps) = map p_id ps"
  by (induction ps) auto

lemma getProfile_split:
  assumes "getProfile i ps = Some e"
  shows "\<exists>a b. ps = a @ e # b \<and> p_id e = i"
proof -
  from assms obtain k where k: "findIndex (\<lambda>p. p_id p = i) ps = Some k" "ps ! k = e"
    by (auto simp: getProfile_def find_findIndex)
  from findIndex_SomeD [OF k(1)] have "k < length ps" "p_id (ps ! k) = i" by auto
  then show ?thesis
    using k(2) id_take_nth_drop [of k ps] by auto
qed

lemma wellFormed_create:
  assumes "wellFormedStore ps" and "uuid env \<notin> set (map p_id ps)"
  shows "wellFormedStore (snd (create env input ps))"
proof -
  define prof where "prof = fst (create env input ps)"
  have pid: "p_id prof = uuid env"
    and flag: "isDefault prof = (truthyBool (c_isDefault input) \<or> length ps = 0)"
    by (simp_all add: prof_def create_def Let_def)
  have res: "snd (create env input ps) =
      saveProfile prof (if isDefault prof
                        then fold saveProfile (map (\<lambda>p. p\<lparr>isDefault := False\<rparr>) ps) ps else ps)"
    by (simp add: prof_def create_def Let_def)
  have clear: "fold saveProfile (map (\<lambda>p. p\<lparr>isDefault := False\<rparr>) ps) ps = map (\<lambda>p. p\<lparr>isDefault := False\<rparr>) ps"
    using assms(1) by (intro rewrite_all) (auto simp: wellFormedStore_def)
  show ?thesis
  proof (cases "isDefault prof")
    case True
    have "p_id prof \<notin> set (map p_id (map (\<lambda>p. p\<lparr>isDefault := False\<rparr>) ps))"
      using assms(2) pid by simp
    then have "saveProfile prof (map (\<lambda>p. p\<lparr>isDefault := False\<rparr>) ps) =
        map (\<lambda>p. p\<lparr>isDefault := False\<rparr>) ps @ [prof]"
      by (rule saveProfile_new)
    moreover have "snd (create env input ps) =
        saveProfile prof (fold saveProfile (map (\<lambda>p. p\<lparr>isDefault := False\<rparr>) ps) ps)"
      unfolding res using True by (simp only: if_True)
    ultimately have "snd (create env input ps) = map (\<lambda>p. p\<lparr>isDefault := False\<rparr>) ps @ [prof]"
      by (simp only: clear)
    then show ?thesis
      using assms pid True by (simp add: wellFormedStore_def defaultCount_cleared)
  next
    case False
    have "p_id prof \<notin> set (map p_id ps)"
      using assms(2) pid by simp
    then have "saveProfile prof ps = ps @ [prof]"
      by (rule saveProfile_new)
    moreover have "snd (create env input ps) = saveProfile prof ps"
      unfolding res using False by (simp only: if_False)
    ultimately have "snd (create env input ps) = ps @ [prof]"
      by (simp only:)
    then show ?thesis
      using assms pid False by (simp add: wellFormedStore_def)
  qed
qed

lemma wellFormed_setDefaultProfile:
  "wellFormedStore ps \<Longrightarrow> wellFormedStore (setDefaultProfile i ps)"
  using defaultCount_elect [of ps i]
  by (simp add: wellFormedStore_def setDefaultProfile_def)

lemma wellFormed_setDefault:
  "wellFormedStore ps \<Longrightarrow> wellFormedStore (snd (setDefault i ps))"
  by (auto simp: setDefault_def wellFormed_setDefaultProfile split: option.splits)

lemma wellFormed_filter:
  "wellFormedStore ps \<Longrightarrow> wellFormedStore (filter P ps)"
  using defaultCount_filter [of P ps]
  by (auto simp: wellFormedStore_def distinct_map_filter)

lemma wellFormed_delete:
  assumes "wellFormedStore ps"
  shows "wellFormedStore (snd (delete i ps))"
proof (cases "getProfile i ps")
  case None
  then show ?thesis using assms by (simp add: delete_def)
next
  case (Some e)
  have f: "wellFormedStore (filter (\<lambda>p. p_id p \<noteq> i) ps)"
    using assms by (rule wellFormed_filter)
  then show ?thesis
    using Some assms
    by (auto simp: delete_def deleteProfile_def Let_def wellFormed_setDefault
        split: list.splits)
qed

lemma wellFormed_update:
  assumes "wellFormedStore ps"
  shows "wellFormedStore (snd (update clock input ps))"
proof (cases "getProfile (u_id input) ps")
  case None
  then show ?thesis using assms by (simp add: update_def)
next
  case (Some e)
  from getProfile_split [OF Some] obtain a b where ps: "ps = a @ e # b" and ide: "p_id e = u_id input"
    by blast
  have dist: "distinct (map p_id (a @ e # b))"
    using assms ps by (simp add: wellFormedStore_def)
  define upd where "upd = e
                 \<lparr> p_label := orElse (u_label input) (p_label e),
                   p_provider := orElse (u_provider input) (p_provider e),
                   p_username := orElse (u_username input) (p_username e),
                   p_email := orElse (u_email input) (p_email e),
                   authType := orElse (u_authType input) (authType e),
                   sshKeyPath := (case u_sshKeyPath input of None \<Rightarrow> sshKeyPath e
                                  | Some k \<Rightarrow> Some k),
                   isDefault := orElse (u_isDefault input) (isDefault e),
                   color := orElse (u_color input) (color e),
                   updatedAt := clock \<rparr>"
  have idu: "p_id upd = p_id e" by (simp add: upd_def)
  have flag: "isDefault upd = orElse (u_isDefault input) (isDefault e)" by (simp add: upd_def)
  define f where "f = (\<lambda>p::Profile. p\<lparr>isDefault := (p_id p = u_id input)\<rparr>)"
  have res0: "snd (update clock input ps) =
      saveProfile upd (if truthyBool (u_isDefault input) \<and> \<not> isDefault e
                       then fold saveProfile (map f ps) ps else ps)"
    using Some by (simp add: update_def Let_def upd_def f_def)
  show ?thesis
  proof (cases "truthyBool (u_isDefault input) \<and> \<not> isDefault e")
    case True
    have rw: "fold saveProfile (map f ps) ps = map f ps"
      using assms by (intro rewrite_all) (auto simp: wellFormedStore_def f_def)
    have mp: "map f ps = map f a @ f e # map f b" by (simp add: ps)
    have d2: "distinct (map p_id (map f a @ f e # map f b))"
      using dist by (simp add: f_def)
    have sv: "saveProfile upd (map f a @ f e # map f b) = map f a @ upd # map f b"
      using d2 by (rule saveProfile_at) (simp add: idu f_def)
    have "snd (update clock input ps) = saveProfile upd (fold saveProfile (map f ps) ps)"
      unfolding res0 using True by (simp only: simp_thms if_True)
    also have "\<dots> = saveProfile upd (map f ps)"
      by (simp only: rw)
    also have "\<dots> = saveProfile upd (map f a @ f e # map f b)"
      by (simp only: mp)
    also have "\<dots> = map f a @ upd # map f b"
      by (rule sv)
    finally have res: "snd (update clock input ps) = map f a @ upd # map f b" .
    have na: "\<forall>p\<in>set a. p_id p \<noteq> u_id input" and nb: "\<forall>p\<in>set b. p_id p \<noteq> u_id input"
      using dist ide by (auto dest: other_id)
    have "defaultCount (map f a) = 0" "defaultCount (map f b) = 0"
      using na nb unfolding f_def by (simp_all add: defaultCount_elect_none)
    then have "defaultCount (map f a @ upd # map f b) \<le> Suc 0"
      by simp
    moreover have "distinct (map p_id (map f a @ upd # map f b))"
      using dist by (simp add: f_def idu)
    ultimately show ?thesis by (simp add: res wellFormedStore_def)
  next
    case False
    have sv: "saveProfile upd (a @ e # b) = a @ upd # b"
      using dist by (rule saveProfile_at) (simp add: idu)
    have "snd (update clock input ps) = saveProfile upd ps"
      unfolding res0 using False by (simp only: simp_thms if_False)
    also have "\<dots> = saveProfile upd (a @ e # b)"
      by (simp only: ps [symmetric])
    also have "\<dots> = a @ upd # b"
      by (rule sv)
    finally have res: "snd (update clock input ps) = a @ upd # b" .
    have "isDefault upd \<longrightarrow> isDefault e"
      using False by (auto simp: flag orElse_def truthyBool_def split: option.splits)
    then have "defaultCount (a @ upd # b) \<le> defaultCount (a @ e # b)"
      by auto
    moreover have "distinct (map p_id (a @ upd # b))"
      using dist by (simp add: idu)
    moreover have "defaultCount (a @ e # b) \<le> 1"
      using assms(1) unfolding wellFormedStore_def ps by (rule conjunct2)
    ultimately have "wellFormedStore (a @ upd # b)"
      unfolding wellFormedStore_def by linarith
    then show ?thesis
      by (simp only: res)
  qed
qed

lemma wellFormed_applyOp:
  "wellFormedStore ps \<Longrightarrow> freshIds [operation] ps \<Longrightarrow> wellFormedStore (applyOp operation ps)"
  by (cases operation)
     (simp_all add: wellFormed_create wellFormed_update wellFormed_delete wellFormed_setDefault)

lemma never_two_defaults:
  "wellFormedStore ps \<Longrightarrow> freshIds ops ps \<Longrightarrow> wellFormedStore (runOps ops ps)"
proof (induction ops arbitrary: ps)
  case Nil
  then show ?case by (simp add: runOps_def)
next
  case (Cons operation ops)
  have "freshIds [operation] ps" and "freshIds ops (applyOp operation ps)"
    using Cons.prems(2) by (cases operation; simp)+
  with Cons show ?case
    by (simp add: runOps_def wellFormed_applyOp)
qed

end
